theory Spec2Isabelle
  imports Complex_Main "HOL-Library.Multiset"
begin

section \<open>JavaScript strings\<close>

text \<open>
  A JavaScript string is a sequence of UTF-16 code units. The model uses \<^typ>\<open>string\<close>,
  whose characters are read as the code units U+0000 to U+00FF (Latin-1); wider code
  units are outside the model.
\<close>

definition LF :: char where
  "LF = CHR 0x0A"

definition CR :: char where
  "CR = CHR 0x0D"

text \<open>The class \<open>\s\<close>, which is also what \<open>String.prototype.trim\<close> strips: white space
  and line terminators (TAB, LF, VT, FF, CR, SP, NBSP below U+0100).\<close>

definition isWhiteSpace :: "char \<Rightarrow> bool" where
  "isWhiteSpace c = (c \<in> set [CHR 0x09, CHR 0x0A, CHR 0x0B, CHR 0x0C, CHR 0x0D, CHR 0x20, CHR 0xA0])"

text \<open>The class \<open>.\<close> without the \<open>s\<close> flag: everything but a line terminator.\<close>

definition isLineTerminator :: "char \<Rightarrow> bool" where
  "isLineTerminator c = (c = LF \<or> c = CR)"

definition dot :: "char \<Rightarrow> bool" where
  "dot c = (\<not> isLineTerminator c)"

text \<open>The class \<open>.\<close> with the \<open>s\<close> flag.\<close>

definition dotAll :: "char \<Rightarrow> bool" where
  "dotAll c = True"

definition isDigit :: "char \<Rightarrow> bool" where
  "isDigit c = (c \<in> set ''0123456789'')"

definition trim :: "string \<Rightarrow> string" where
  "trim s = rev (dropWhile isWhiteSpace (rev (dropWhile isWhiteSpace s)))"

text \<open>\<open>String.prototype.toLowerCase\<close> on Latin-1: A-Z and the capital letters
  U+00C0 to U+00DE (but not the multiplication sign U+00D7) move up by 32.\<close>

definition toLowerChar :: "char \<Rightarrow> char" where
  "toLowerChar c =
     (let n = (of_char c :: nat)
      in if (65 \<le> n \<and> n \<le> 90) \<or> (192 \<le> n \<and> n \<le> 222 \<and> n \<noteq> 215)
         then char_of (n + 32) else c)"

definition toLowerCase :: "string \<Rightarrow> string" where
  "toLowerCase s = map toLowerChar s"

text \<open>Case folding of the \<open>i\<close> flag (without \<open>u\<close>): a code unit is compared through its
  upper case, and no code unit from U+0080 on folds to an ASCII letter, so for the ASCII
  letters of the patterns below only a-z fold.\<close>

definition canonicalize :: "char \<Rightarrow> char" where
  "canonicalize c =
     (case map_of (zip ''abcdefghijklmnopqrstuvwxyz'' ''ABCDEFGHIJKLMNOPQRSTUVWXYZ'') c of
        Some u \<Rightarrow> u
      | None \<Rightarrow> c)"

fun startsWith :: "string \<Rightarrow> string \<Rightarrow> bool" where
  "startsWith s [] = True"
| "startsWith [] (p # ps) = False"
| "startsWith (c # cs) (p # ps) = (c = p \<and> startsWith cs ps)"

text \<open>\<open>s.includes(sub)\<close>.\<close>

fun includes_str :: "string \<Rightarrow> string \<Rightarrow> bool" where
  "includes_str [] sub = (sub = [])"
| "includes_str (c # cs) sub = (startsWith (c # cs) sub \<or> includes_str cs sub)"

text \<open>\<open>s.split(/\n/)\<close>: the pieces between line feeds; never empty.\<close>

fun splitLines :: "string \<Rightarrow> string list" where
  "splitLines [] = [[]]"
| "splitLines (c # cs) =
     (if c = LF then [] # splitLines cs
      else (case splitLines cs of
              [] \<Rightarrow> [[c]]
            | l # ls \<Rightarrow> (c # l) # ls))"

section \<open>Backtracking regular expressions\<close>

text \<open>
  A pattern is a matcher in continuation-passing style: it gets the continuation \<open>k\<close> for
  the rest of the pattern and the remaining input, tries its alternatives in the priority
  order of the ECMAScript backtracking semantics, and returns the first result for which
  the continuation succeeds. \<open>None\<close> is failure.
\<close>

type_synonym 'a cont = "string \<Rightarrow> 'a option"

text \<open>A literal under the \<open>i\<close> flag.\<close>

fun rx_lit_ci :: "string \<Rightarrow> 'a cont \<Rightarrow> 'a cont" where
  "rx_lit_ci [] k s = k s"
| "rx_lit_ci (p # ps) k [] = None"
| "rx_lit_ci (p # ps) k (c # cs) =
     (if canonicalize c = canonicalize p then rx_lit_ci ps k cs else None)"

text \<open>A literal, case-sensitive.\<close>

fun rx_lit :: "string \<Rightarrow> 'a cont \<Rightarrow> 'a cont" where
  "rx_lit [] k s = k s"
| "rx_lit (p # ps) k [] = None"
| "rx_lit (p # ps) k (c # cs) = (if c = p then rx_lit ps k cs else None)"

text \<open>One character of a class.\<close>

definition rx_class :: "(char \<Rightarrow> bool) \<Rightarrow> 'a cont \<Rightarrow> 'a cont" where
  "rx_class p k s = (case s of [] \<Rightarrow> None | c # cs \<Rightarrow> if p c then k cs else None)"

text \<open>\<open>(?:m)?\<close>, greedy: with \<open>m\<close> first, without it when that fails.\<close>

definition rx_opt :: "('a cont \<Rightarrow> 'a cont) \<Rightarrow> 'a cont \<Rightarrow> 'a cont" where
  "rx_opt m k s = (case m k s of Some r \<Rightarrow> Some r | None \<Rightarrow> k s)"

text \<open>\<open>m1|m2\<close>.\<close>

definition rx_alt :: "('a cont \<Rightarrow> 'a cont) \<Rightarrow> ('a cont \<Rightarrow> 'a cont) \<Rightarrow> 'a cont \<Rightarrow> 'a cont" where
  "rx_alt m1 m2 k s = (case m1 k s of Some r \<Rightarrow> Some r | None \<Rightarrow> m2 k s)"

text \<open>\<open>[p]*\<close>, greedy: one more character first, the rest of the pattern when that fails.\<close>

fun rx_star :: "(char \<Rightarrow> bool) \<Rightarrow> 'a cont \<Rightarrow> 'a cont" where
  "rx_star p k [] = k []"
| "rx_star p k (c # cs) =
     (if p c then (case rx_star p k cs of Some r \<Rightarrow> Some r | None \<Rightarrow> k (c # cs))
      else k (c # cs))"

text \<open>\<open>[p]+\<close>, greedy.\<close>

definition rx_plus :: "(char \<Rightarrow> bool) \<Rightarrow> 'a cont \<Rightarrow> 'a cont" where
  "rx_plus p k s = (case s of [] \<Rightarrow> None | c # cs \<Rightarrow> if p c then rx_star p k cs else None)"

text \<open>\<open>[p]+?\<close>, lazy: after each character the rest of the pattern first, one more
  character when that fails.\<close>

fun rx_lazy_plus :: "(char \<Rightarrow> bool) \<Rightarrow> 'a cont \<Rightarrow> 'a cont" where
  "rx_lazy_plus p k [] = None"
| "rx_lazy_plus p k (c # cs) =
     (if p c then (case k cs of Some r \<Rightarrow> Some r | None \<Rightarrow> rx_lazy_plus p k cs)
      else None)"

text \<open>\<open>$\<close> without the \<open>m\<close> flag: the end of the input.\<close>

definition rx_eoi :: "'a cont \<Rightarrow> 'a cont" where
  "rx_eoi k s = (if s = [] then k s else None)"

text \<open>A capturing group: the continuation also gets the text the group consumed.\<close>

definition rx_group :: "('a cont \<Rightarrow> 'a cont) \<Rightarrow> (string \<Rightarrow> 'a cont) \<Rightarrow> 'a cont" where
  "rx_group m k s = m (\<lambda>rest. k (take (length s - length rest) s) rest) s"

text \<open>\<open>text.match(re)\<close> without the \<open>g\<close> flag: the match at the leftmost start
  position, the empty suffix included.\<close>

fun rx_search :: "'a cont \<Rightarrow> 'a cont" where
  "rx_search m [] = m []"
| "rx_search m (c # cs) = (case m (c # cs) of Some r \<Rightarrow> Some r | None \<Rightarrow> rx_search m cs)"

text \<open>The end of a pattern whose result is its first group.\<close>

definition rx_accept :: "'a \<Rightarrow> 'a cont" where
  "rx_accept g s = Some g"

section \<open>The plan extractor\<close>

record PlanStep =
  ps_title :: string

record Plan =
  goalTitle :: string
  description :: "string option"
  steps :: "PlanStep list"

text \<open>\<open>/(?:\*\*)?Goal(?:\*\*)?:\s*(.+?)(?:\n|$)/i\<close>, group 1.\<close>

definition goalMatch :: "string \<Rightarrow> string option" where
  "goalMatch text =
     rx_search
       ((rx_opt (rx_lit_ci ''**'') \<circ> rx_lit_ci ''Goal'' \<circ> rx_opt (rx_lit_ci ''**'')
          \<circ> rx_lit_ci '':'' \<circ> rx_star isWhiteSpace)
        (rx_group (rx_lazy_plus dot)
           (\<lambda>g. rx_alt (rx_lit_ci [LF]) rx_eoi (rx_accept g))))
       text"

text \<open>The look of the steps label inside the description pattern:
  \<open>\n(?:\*\*)?(?:Daily\s+)?Steps\<close>.\<close>

definition stepsAhead :: "'a cont \<Rightarrow> 'a cont" where
  "stepsAhead =
     rx_lit_ci [LF] \<circ> rx_opt (rx_lit_ci ''**'')
       \<circ> rx_opt (rx_lit_ci ''Daily'' \<circ> rx_plus isWhiteSpace) \<circ> rx_lit_ci ''Steps''"

text \<open>\<open>/(?:\*\*)?Description(?:\*\*)?:\s*(.+?)(?:\n(?:\*\*)?(?:Daily\s+)?Steps|$)/is\<close>,
  group 1.\<close>

definition descriptionMatch :: "string \<Rightarrow> string option" where
  "descriptionMatch text =
     rx_search
       ((rx_opt (rx_lit_ci ''**'') \<circ> rx_lit_ci ''Description'' \<circ> rx_opt (rx_lit_ci ''**'')
          \<circ> rx_lit_ci '':'' \<circ> rx_star isWhiteSpace)
        (rx_group (rx_lazy_plus dotAll)
           (\<lambda>g. rx_alt stepsAhead rx_eoi (rx_accept g))))
       text"

text \<open>The label that opens the steps section in both versions of the extractor:
  \<open>(?:\*\*)?(?:Daily\s+)?Steps(?:\*\*)?:?\s*\n\<close>.\<close>

definition stepsLabel :: "'a cont \<Rightarrow> 'a cont" where
  "stepsLabel =
     rx_opt (rx_lit_ci ''**'') \<circ> rx_opt (rx_lit_ci ''Daily'' \<circ> rx_plus isWhiteSpace)
       \<circ> rx_lit_ci ''Steps'' \<circ> rx_opt (rx_lit_ci ''**'') \<circ> rx_opt (rx_lit_ci '':'')
       \<circ> rx_star isWhiteSpace \<circ> rx_lit_ci [LF]"

text \<open>\<open>/(?:\*\*)?(?:Daily\s+)?Steps(?:\*\*)?:?\s*\n(.+)/is\<close>, group 1.\<close>

definition stepsSectionMatch :: "string \<Rightarrow> string option" where
  "stepsSectionMatch text =
     rx_search (stepsLabel (rx_group (rx_plus dotAll) (\<lambda>g. rx_accept g))) text"

text \<open>\<open>/^\d+\.\s*(.+)/.exec(line)\<close>, group 1.\<close>

definition numbered :: "string \<Rightarrow> string option" where
  "numbered line =
     (rx_plus isDigit \<circ> rx_lit ''.'' \<circ> rx_star isWhiteSpace)
       (rx_group (rx_plus dot) (\<lambda>g. rx_accept g)) line"

text \<open>\<open>/^[-*]\s*(.+)/.exec(line)\<close>, group 1.\<close>

definition bulleted :: "string \<Rightarrow> string option" where
  "bulleted line =
     (rx_class (\<lambda>c. c \<in> set ''-*'') \<circ> rx_star isWhiteSpace)
       (rx_group (rx_plus dot) (\<lambda>g. rx_accept g)) line"

text \<open>\<open>numbered?.[1]?.trim() ?? bulleted?.[1]?.trim() ?? ""\<close>.\<close>

definition itemTitle :: "string \<Rightarrow> string" where
  "itemTitle line =
     (case numbered line of
        Some g \<Rightarrow> trim g
      | None \<Rightarrow> (case bulleted line of Some g \<Rightarrow> trim g | None \<Rightarrow> []))"

text \<open>The filter against the goal title and the description.\<close>

definition notGoalOrDescription :: "string \<Rightarrow> string option \<Rightarrow> string \<Rightarrow> bool" where
  "notGoalOrDescription gTitle descr title =
     (let titleLower = toLowerCase title;
          goalTitleLower = toLowerCase gTitle;
          descriptionLower = (case descr of Some d \<Rightarrow> toLowerCase d | None \<Rightarrow> [])
      in if titleLower = goalTitleLower \<or> titleLower = descriptionLower then False
         else if length goalTitleLower > 5 \<and> includes_str titleLower goalTitleLower then False
         else if length descriptionLower > 5 \<and> includes_str titleLower descriptionLower then False
         else True)"

text \<open>The step titles of the extractor that reads the steps only after the label.\<close>

definition stepLines :: "string \<Rightarrow> string option \<Rightarrow> string \<Rightarrow> string list" where
  "stepLines gTitle descr stepsText =
     filter (notGoalOrDescription gTitle descr)
       (filter (\<lambda>title. length title > 0)
          (map itemTitle
             (filter (\<lambda>line. numbered line \<noteq> None \<or> bulleted line \<noteq> None)
                (map trim (splitLines stepsText)))))"

definition defaultSteps :: "PlanStep list" where
  "defaultSteps = [\<lparr>ps_title = ''Start working on your goal''\<rparr>]"

text \<open>\<open>goalMatch?.[1]?.trim() ?? "New Goal"\<close>.\<close>

definition extractGoalTitle :: "string \<Rightarrow> string" where
  "extractGoalTitle text = (case goalMatch text of Some g \<Rightarrow> trim g | None \<Rightarrow> ''New Goal'')"

text \<open>\<open>descriptionMatch?.[1]?.trim() ?? null\<close>.\<close>

definition extractDescription :: "string \<Rightarrow> string option" where
  "extractDescription text = map_option trim (descriptionMatch text)"

text \<open>The variable \<open>steps\<close> before the default step is put in.\<close>

definition extractedSteps :: "string \<Rightarrow> PlanStep list" where
  "extractedSteps text =
     (case stepsSectionMatch text of
        Some stepsText \<Rightarrow>
          map (\<lambda>title. \<lparr>ps_title = title\<rparr>)
            (stepLines (extractGoalTitle text) (extractDescription text) stepsText)
      | None \<Rightarrow> [])"

definition extractPlanFromText :: "string \<Rightarrow> Plan" where
  "extractPlanFromText text =
     \<lparr>goalTitle = extractGoalTitle text, description = extractDescription text,
      steps = (if length (extractedSteps text) = 0 then defaultSteps else extractedSteps text)\<rparr>"

subsection \<open>The extractor with the fallback over all lines\<close>

text \<open>One repetition of the group
  \<open>((?:\d+\.|[-*])\s*.+?(?:\n|$))+\<close>.\<close>

definition stepItem :: "'a cont \<Rightarrow> 'a cont" where
  "stepItem =
     rx_alt (rx_plus isDigit \<circ> rx_lit_ci ''.'') (rx_class (\<lambda>c. c \<in> set ''-*''))
       \<circ> rx_star isWhiteSpace \<circ> rx_lazy_plus dotAll \<circ> rx_alt (rx_lit_ci [LF]) rx_eoi"

text \<open>The group under \<open>+\<close>, greedy, at the end of the pattern: after each repetition
  another one is tried first, and the pattern ends where none matches. The end of the
  pattern succeeds everywhere, so the first way a repetition matches is never given up.
  Group 1 is the text of the last repetition, as ECMAScript keeps the capture of the
  last iteration of a quantified group. A repetition consumes at least its marker, so the
  loop ends.\<close>

function stepItems :: "string \<Rightarrow> string \<Rightarrow> string" where
  "stepItems prev s =
     (case stepItem Some s of
        Some rest \<Rightarrow> stepItems (take (length s - length rest) s) rest
      | None \<Rightarrow> prev)"
  by pat_completeness auto
termination
proof (relation "measure (\<lambda>(prev, s). length s)")
  show "wf (measure (\<lambda>(prev, s). length s))" by simp
next
  fix prev s rest :: string
  assume m: "stepItem Some s = Some rest"
  have lit: "\<exists>t'. length t' \<le> length t \<and> k t' = Some r"
    if "rx_lit_ci w k t = Some r" for w t r and k :: "string cont"
    using that
  proof (induction w k t rule: rx_lit_ci.induct)
    case (1 k t)
    then show ?case by auto
  next
    case (2 p ps k)
    then show ?case by simp
  next
    case (3 p ps k c cs)
    from "3.prems" have "canonicalize c = canonicalize p" and "rx_lit_ci ps k cs = Some r"
      by (auto split: if_splits)
    from "3.IH" [OF this] obtain t' where "length t' \<le> length cs" "k t' = Some r"
      by auto
    then show ?case by (intro exI [of _ t']) simp
  qed
  have star: "\<exists>t'. length t' \<le> length t \<and> k t' = Some r"
    if "rx_star p k t = Some r" for p t r and k :: "string cont"
    using that
  proof (induction t)
    case Nil
    then show ?case by auto
  next
    case (Cons c cs)
    show ?case
    proof (cases "p c \<and> rx_star p k cs \<noteq> None")
      case True
      with Cons.prems have "rx_star p k cs = Some r" by auto
      from Cons.IH [OF this] obtain t' where "length t' \<le> length cs" "k t' = Some r"
        by auto
      then show ?thesis by (intro exI [of _ t']) simp
    next
      case False
      with Cons.prems have "k (c # cs) = Some r" by (auto split: if_splits)
      then show ?thesis by (intro exI [of _ "c # cs"]) simp
    qed
  qed
  have lazy: "\<exists>t'. length t' < length t \<and> k t' = Some r"
    if "rx_lazy_plus p k t = Some r" for p t r and k :: "string cont"
    using that
  proof (induction t)
    case Nil
    then show ?case by simp
  next
    case (Cons c cs)
    show ?case
    proof (cases "k cs")
      case None
      with Cons.prems have "rx_lazy_plus p k cs = Some r" by (auto split: if_splits)
      from Cons.IH [OF this] obtain t' where "length t' < length cs" "k t' = Some r"
        by auto
      then show ?thesis by (intro exI [of _ t']) simp
    next
      case (Some a)
      with Cons.prems have "k cs = Some r" by (auto split: if_splits)
      then show ?thesis by (intro exI [of _ cs]) simp
    qed
  qed
  define k3 :: "string cont" where "k3 = rx_alt (rx_lit_ci [LF]) rx_eoi Some"
  define k2 where "k2 = rx_lazy_plus dotAll k3"
  define k1 where "k1 = rx_star isWhiteSpace k2"
  from m have "rx_alt (rx_plus isDigit \<circ> rx_lit_ci ''.'') (rx_class (\<lambda>c. c \<in> set ''-*'')) k1 s = Some rest"
    by (simp add: stepItem_def k1_def k2_def k3_def)
  then consider "rx_plus isDigit (rx_lit_ci ''.'' k1) s = Some rest"
    | "rx_class (\<lambda>c. c \<in> set ''-*'') k1 s = Some rest"
    by (auto simp: rx_alt_def split: option.splits)
  then obtain s1 where s1: "length s1 < length s" "k1 s1 = Some rest"
  proof cases
    case 1
    then obtain c cs where c: "s = c # cs" "rx_star isDigit (rx_lit_ci ''.'' k1) cs = Some rest"
      by (auto simp: rx_plus_def split: list.splits if_splits)
    from star [OF c(2)] obtain t' where "length t' \<le> length cs" "rx_lit_ci ''.'' k1 t' = Some rest"
      by auto
    moreover from lit [OF this(2)] obtain t'' where "length t'' \<le> length t'" "k1 t'' = Some rest"
      by auto
    ultimately show ?thesis using c(1) that [of t''] by simp
  next
    case 2
    then show ?thesis using that by (auto simp: rx_class_def split: list.splits if_splits)
  qed
  from star [OF s1(2) [unfolded k1_def]] obtain s2 where s2: "length s2 \<le> length s1" "k2 s2 = Some rest"
    by auto
  from lazy [OF s2(2) [unfolded k2_def]] obtain s3 where s3: "length s3 < length s2" "k3 s3 = Some rest"
    by auto
  from s3(2) consider "rx_lit_ci [LF] Some s3 = Some rest" | "rx_eoi Some s3 = Some rest"
    by (auto simp: k3_def rx_alt_def split: option.splits)
  then have "length rest \<le> length s3"
  proof cases
    case 1
    from lit [OF this] show ?thesis by auto
  next
    case 2
    then show ?thesis by (auto simp: rx_eoi_def split: if_splits)
  qed
  with s1(1) s2(1) s3(1)
  show "((take (length s - length rest) s, rest), (prev, s)) \<in> measure (\<lambda>(prev, s). length s)"
    by simp
qed

definition rx_stepItems :: "string cont" where
  "rx_stepItems s =
     (case stepItem Some s of
        Some rest \<Rightarrow> Some (stepItems (take (length s - length rest) s) rest)
      | None \<Rightarrow> None)"

text \<open>\<open>/(?:\*\*)?(?:Daily\s+)?Steps(?:\*\*)?:?\s*\n((?:\d+\.|[-*])\s*.+?(?:\n|$))+/is\<close>,
  group 1.\<close>

definition stepsMatch :: "string \<Rightarrow> string option" where
  "stepsMatch text = rx_search (stepsLabel rx_stepItems) text"

text \<open>\<open>/^\d+\.|^[-*]/.test(line)\<close>.\<close>

definition listMarker :: "string \<Rightarrow> bool" where
  "listMarker line =
     (rx_alt (rx_plus isDigit \<circ> rx_lit ''.'') (rx_class (\<lambda>c. c \<in> set ''-*''))
        (rx_accept ()) line \<noteq> None)"

text \<open>The step titles read from the text of the label's match.\<close>

definition labelledSteps :: "string \<Rightarrow> string list" where
  "labelledSteps stepsText =
     filter (\<lambda>title. length title > 0)
       (map itemTitle
          (filter (\<lambda>line. numbered line \<noteq> None \<or> bulleted line \<noteq> None)
             (map trim (splitLines stepsText))))"

text \<open>The fallback: the list items of all lines of the text.\<close>

definition listItems :: "string \<Rightarrow> string list" where
  "listItems text =
     filter (\<lambda>title. length title > 0)
       (map itemTitle (filter listMarker (map trim (splitLines text))))"

text \<open>The variable \<open>steps\<close> before the default step is put in: the steps after the
  label, and the list items of the whole text when there are none.\<close>

definition extractedSteps_fallback :: "string \<Rightarrow> PlanStep list" where
  "extractedSteps_fallback text =
     (let steps1 = (case stepsMatch text of
                      Some stepsText \<Rightarrow> map (\<lambda>title. \<lparr>ps_title = title\<rparr>) (labelledSteps stepsText)
                    | None \<Rightarrow> [])
      in if length steps1 = 0
         then (let items = listItems text
               in if length items > 0 then map (\<lambda>title. \<lparr>ps_title = title\<rparr>) items else steps1)
         else steps1)"

definition extractPlanFromText_fallback :: "string \<Rightarrow> Plan" where
  "extractPlanFromText_fallback text =
     \<lparr>goalTitle = extractGoalTitle text, description = extractDescription text,
      steps = (if length (extractedSteps_fallback text) = 0 then defaultSteps
               else extractedSteps_fallback text)\<rparr>"

section \<open>The goal and step store\<close>

text \<open>
  The tables are those of the migration \<open>0008_dizzy_plazm.sql\<close>. A \<open>uuid\<close> stands for the
  value of a \<open>uuid\<close> column; the identifiers the store generates are taken from a counter.
  A timestamp is a number, and \<open>new Date()\<close> is the argument \<open>now\<close> of an operation.
  The column \<open>order\<close> is an unbounded integer here.
\<close>

type_synonym uuid = nat

type_synonym timestamp = nat

text \<open>What an operation throws: a \<open>ChatSDKError\<close> with its code and message, or any
  other \<open>Error\<close> of the driver with its message.\<close>

datatype error = ChatSDKError string string | DriverError string

record Goal =
  goal_id :: uuid
  goal_chatId :: uuid
  goal_userId :: uuid
  goal_createdFromMessageId :: "uuid option"
  goal_title :: string
  goal_description :: "string option"
  goal_status :: string
  goal_priority :: string
  goal_deadline :: "timestamp option"
  goal_createdAt :: timestamp

record Step =
  step_id :: uuid
  step_goalId :: uuid
  step_title :: string
  step_isCompleted :: bool
  step_order :: int
  step_completedAt :: "timestamp option"
  step_createdAt :: timestamp

record Chat =
  chat_id :: uuid
  chat_userId :: uuid

record database =
  goalTable :: "Goal list"
  stepTable :: "Step list"
  chatTable :: "Chat list"
  userTable :: "uuid list"
  messageTable :: "uuid list"
  nextUuid :: uuid

text \<open>The text of an identifier inside a message (decimal digits in the model).\<close>

fun uuidText :: "uuid \<Rightarrow> string" where
  "uuidText n =
     (if n < 10 then [char_of (48 + n)] else uuidText (n div 10) @ [char_of (48 + n mod 10)])"

subsection \<open>Values that come with a request\<close>

text \<open>
  The identifier that \<open>updateStep\<close>, \<open>toggleStepCompletion\<close> and \<open>deleteStep\<close> are given is
  the string of the request (a query parameter of \<open>/api/step\<close>, an argument of a server
  action). It is compared with a \<open>uuid\<close> column, so the storage reads it as a \<open>uuid\<close>: the
  string is either the text of one, or malformed, and then the statement fails.
\<close>

datatype idText = UuidText uuid | MalformedText string

text \<open>
  The signature of \<open>updateStep\<close> says \<open>isCompleted?: boolean\<close>, but the \<open>PUT\<close> handler of
  \<open>/api/step\<close> passes the field of the JSON body as it came, so at run time it is any JSON
  value. The model has \<open>null\<close>, the booleans, the numbers (integers here) and the strings;
  arrays and objects are left out.
\<close>

datatype jsValue = JNull | JBool bool | JNumber int | JString string

text \<open>\<open>value ? a : b\<close>: the truthiness of JavaScript.\<close>

fun truthy :: "jsValue \<Rightarrow> bool" where
  "truthy JNull = False"
| "truthy (JBool b) = b"
| "truthy (JNumber n) = (n \<noteq> 0)"
| "truthy (JString s) = (s \<noteq> [])"

text \<open>
  What the column \<open>isCompleted boolean NOT NULL\<close> stores for a value. The driver sends a
  boolean as a boolean and any other value as its text, which PostgreSQL reads as a boolean:
  surrounding white space is dropped, the case of the letters is ignored, and the text is
  a beginning of \<open>true\<close>, \<open>yes\<close>, \<open>false\<close> or \<open>no\<close>, or it is \<open>on\<close>, \<open>of\<close>, \<open>off\<close>, \<open>1\<close>
  or \<open>0\<close>.
  \<open>None\<close>: the statement fails (the text is no boolean, or the value is \<open>null\<close>).
\<close>

definition pgSpace :: "char \<Rightarrow> bool" where
  "pgSpace c = (c \<in> set [CHR 0x09, CHR 0x0A, CHR 0x0B, CHR 0x0C, CHR 0x0D, CHR 0x20])"

definition pgBooleanText :: "string \<Rightarrow> bool option" where
  "pgBooleanText s =
     (let t = map canonicalize (rev (dropWhile pgSpace (rev (dropWhile pgSpace s))))
      in if t \<in> set [''T'', ''TR'', ''TRU'', ''TRUE'', ''Y'', ''YE'', ''YES'', ''ON'', ''1''] then Some True
         else if t \<in> set [''F'', ''FA'', ''FAL'', ''FALS'', ''FALSE'', ''N'', ''NO'', ''OF'', ''OFF'', ''0'']
         then Some False
         else None)"

fun pgBoolean :: "jsValue \<Rightarrow> bool option" where
  "pgBoolean JNull = None"
| "pgBoolean (JBool b) = Some b"
| "pgBoolean (JNumber n) = (if n = 1 then Some True else if n = 0 then Some False else None)"
| "pgBoolean (JString s) = pgBooleanText s"

subsection \<open>Statements\<close>

text \<open>\<open>db.transaction(body)\<close>: what the body wrote is kept when it returns and rolled
  back when it throws.\<close>

definition transaction ::
  "(database \<Rightarrow> (error + 'a) \<times> database) \<Rightarrow> database \<Rightarrow> (error + 'a) \<times> database" where
  "transaction body d =
     (case body d of
        (Inl e, tx) \<Rightarrow> (Inl e, d)
      | (Inr r, tx) \<Rightarrow> (Inr r, tx))"

text \<open>\<open>insert(goal).values(row).returning()\<close>: the identifier is generated, the
  foreign keys and the primary key of the table are checked.\<close>

definition insertGoal :: "Goal \<Rightarrow> database \<Rightarrow> error + (Goal \<times> database)" where
  "insertGoal row d =
     (if goal_chatId row \<notin> set (map chat_id (chatTable d))
      then Inl (DriverError ''violates foreign key constraint Goal_chatId_Chat_id_fk'')
      else if goal_userId row \<notin> set (userTable d)
      then Inl (DriverError ''violates foreign key constraint Goal_userId_User_id_fk'')
      else if (case goal_createdFromMessageId row of
                 Some m \<Rightarrow> m \<notin> set (messageTable d)
               | None \<Rightarrow> False)
      then Inl (DriverError ''violates foreign key constraint Goal_createdFromMessageId_Message_v2_id_fk'')
      else if nextUuid d \<in> set (map goal_id (goalTable d))
      then Inl (DriverError ''duplicate key value violates unique constraint Goal_pkey'')
      else (let created = row\<lparr>goal_id := nextUuid d\<rparr>
            in Inr (created, d\<lparr>goalTable := goalTable d @ [created], nextUuid := Suc (nextUuid d)\<rparr>)))"

text \<open>\<open>insert(step).values(rows).returning()\<close>. The query builder refuses an empty
  list of rows; the foreign key to the goal and the primary key are checked.\<close>

definition insertSteps :: "Step list \<Rightarrow> database \<Rightarrow> error + (Step list \<times> database)" where
  "insertSteps rows d =
     (if rows = [] then Inl (DriverError ''values() must be called with at least one value'')
      else if \<exists>r \<in> set rows. step_goalId r \<notin> set (map goal_id (goalTable d))
      then Inl (DriverError ''violates foreign key constraint Step_goalId_Goal_id_fk'')
      else if \<exists>s \<in> set (stepTable d). nextUuid d \<le> step_id s \<and> step_id s < nextUuid d + length rows
      then Inl (DriverError ''duplicate key value violates unique constraint Step_pkey'')
      else (let created = map (\<lambda>(i, r). r\<lparr>step_id := nextUuid d + i\<rparr>) (enumerate 0 rows)
            in Inr (created,
                 d\<lparr>stepTable := stepTable d @ created, nextUuid := nextUuid d + length rows\<rparr>)))"

text \<open>The rows of the step table after an update of the row with the identifier \<open>i\<close>.\<close>

definition updateStepWhereId :: "uuid \<Rightarrow> (Step \<Rightarrow> Step) \<Rightarrow> database \<Rightarrow> database" where
  "updateStepWhereId i f d =
     d\<lparr>stepTable := map (\<lambda>s. if step_id s = i then f s else s) (stepTable d)\<rparr>"

text \<open>\<open>select().from(step).where(eq(step.id, id)).limit(1)\<close> with the string \<open>id\<close> of the
  request.\<close>

definition selectStepById :: "idText \<Rightarrow> database \<Rightarrow> error + Step option" where
  "selectStepById i d =
     (case i of
        UuidText u \<Rightarrow> Inr (find (\<lambda>s. step_id s = u) (stepTable d))
      | MalformedText t \<Rightarrow> Inl (DriverError ''invalid input syntax for type uuid''))"

text \<open>
  The object \<open>updateData\<close> that \<open>updateStep\<close> and \<open>bulkUpdateSteps\<close> build: \<open>None\<close> is a
  key that is absent; \<open>isCompleted\<close> is the value as it came, and \<open>completedAt\<close> is
  \<open>isCompleted ? new Date() : null\<close>, present exactly when \<open>isCompleted\<close> is.
\<close>

record UpdateData =
  ud_title :: "string option"
  ud_isCompleted :: "jsValue option"
  ud_completedAt :: "timestamp option option"
  ud_order :: "int option"

definition buildUpdateData ::
  "string option \<Rightarrow> jsValue option \<Rightarrow> int option \<Rightarrow> timestamp \<Rightarrow> UpdateData" where
  "buildUpdateData title isCompleted ord now =
     \<lparr>ud_title = title, ud_isCompleted = isCompleted,
      ud_completedAt =
        (case isCompleted of
           Some v \<Rightarrow> Some (if truthy v then Some now else None)
         | None \<Rightarrow> None),
      ud_order = ord\<rparr>"

definition emptyUpdateData :: "UpdateData \<Rightarrow> bool" where
  "emptyUpdateData u =
     (ud_title u = None \<and> ud_isCompleted u = None \<and> ud_completedAt u = None \<and> ud_order u = None)"

text \<open>The row after the update; \<open>completed\<close> is what the column \<open>isCompleted\<close> stores for
  the value of \<open>updateData.isCompleted\<close>.\<close>

definition writeStep :: "UpdateData \<Rightarrow> bool option \<Rightarrow> Step \<Rightarrow> Step" where
  "writeStep u completed s =
     s\<lparr>step_title := (case ud_title u of Some v \<Rightarrow> v | None \<Rightarrow> step_title s),
       step_isCompleted := (case completed of Some v \<Rightarrow> v | None \<Rightarrow> step_isCompleted s),
       step_completedAt := (case ud_completedAt u of Some v \<Rightarrow> v | None \<Rightarrow> step_completedAt s),
       step_order := (case ud_order u of Some v \<Rightarrow> v | None \<Rightarrow> step_order s)\<rparr>"

text \<open>\<open>update(step).set(updateData).where(eq(step.id, id))\<close> for the identifier of a row
  that was selected before. The query builder refuses a \<open>set\<close> without any key
  (\<open>No values to set\<close>).\<close>

definition setStepWhereId :: "uuid \<Rightarrow> UpdateData \<Rightarrow> database \<Rightarrow> error + database" where
  "setStepWhereId i u d =
     (if emptyUpdateData u then Inl (DriverError ''No values to set'')
      else (case ud_isCompleted u of
              None \<Rightarrow> Inr (updateStepWhereId i (writeStep u None) d)
            | Some v \<Rightarrow>
                (case pgBoolean v of
                   None \<Rightarrow> Inl (DriverError ''invalid value for the column isCompleted'')
                 | Some b \<Rightarrow> Inr (updateStepWhereId i (writeStep u (Some b)) d))))"

subsection \<open>Goals\<close>

record GoalInput =
  gi_chatId :: uuid
  gi_userId :: uuid
  gi_title :: string
  gi_description :: "string option"
  gi_status :: "string option"
  gi_priority :: "string option"
  gi_deadline :: "timestamp option"
  gi_createdFromMessageId :: "uuid option"

definition goalRow :: "GoalInput \<Rightarrow> timestamp \<Rightarrow> Goal" where
  "goalRow a now =
     \<lparr>goal_id = 0, goal_chatId = gi_chatId a, goal_userId = gi_userId a,
      goal_createdFromMessageId = gi_createdFromMessageId a,
      goal_title = gi_title a, goal_description = gi_description a,
      goal_status = (case gi_status a of Some v \<Rightarrow> v | None \<Rightarrow> ''not_started''),
      goal_priority = (case gi_priority a of Some v \<Rightarrow> v | None \<Rightarrow> ''medium''),
      goal_deadline = gi_deadline a, goal_createdAt = now\<rparr>"

definition statusValues :: "string list" where
  "statusValues = [''not_started'', ''in_progress'', ''completed'']"

definition priorityValues :: "string list" where
  "priorityValues = [''low'', ''medium'', ''high'']"

definition invalidOption :: "string option \<Rightarrow> string list \<Rightarrow> bool" where
  "invalidOption v allowed = (case v of Some x \<Rightarrow> x \<notin> set allowed | None \<Rightarrow> False)"

definition createGoal :: "GoalInput \<Rightarrow> timestamp \<Rightarrow> database \<Rightarrow> (error + Goal) \<times> database" where
  "createGoal a now d =
     (if trim (gi_title a) = [] then (Inl (ChatSDKError ''bad_request:goal'' ''Title cannot be empty''), d)
      else if invalidOption (gi_status a) statusValues
      then (Inl (ChatSDKError ''bad_request:goal'' ''Invalid status value''), d)
      else if invalidOption (gi_priority a) priorityValues
      then (Inl (ChatSDKError ''bad_request:goal'' ''Invalid priority value''), d)
      else (case insertGoal (goalRow a now) d of
              Inl e \<Rightarrow> (Inl (ChatSDKError ''bad_request:database'' ''Failed to create goal''), d)
            | Inr (createdGoal, d') \<Rightarrow> (Inr createdGoal, d')))"

definition getGoalById :: "uuid \<Rightarrow> database \<Rightarrow> Goal option" where
  "getGoalById i d = find (\<lambda>g. goal_id g = i) (goalTable d)"

text \<open>The fields of an update: \<open>None\<close> is \<open>undefined\<close> (the field is left alone); for a
  nullable column \<open>Some None\<close> is \<open>null\<close>.\<close>

record GoalUpdate =
  gu_title :: "string option"
  gu_description :: "string option option"
  gu_status :: "string option"
  gu_priority :: "string option"
  gu_deadline :: "timestamp option option"

definition applyGoalUpdate :: "GoalUpdate \<Rightarrow> Goal \<Rightarrow> Goal" where
  "applyGoalUpdate u g =
     g\<lparr>goal_title := (case gu_title u of Some v \<Rightarrow> v | None \<Rightarrow> goal_title g),
       goal_description := (case gu_description u of Some v \<Rightarrow> v | None \<Rightarrow> goal_description g),
       goal_status := (case gu_status u of Some v \<Rightarrow> v | None \<Rightarrow> goal_status g),
       goal_priority := (case gu_priority u of Some v \<Rightarrow> v | None \<Rightarrow> goal_priority g),
       goal_deadline := (case gu_deadline u of Some v \<Rightarrow> v | None \<Rightarrow> goal_deadline g)\<rparr>"

definition emptyGoalUpdate :: "GoalUpdate \<Rightarrow> bool" where
  "emptyGoalUpdate u =
     (gu_title u = None \<and> gu_description u = None \<and> gu_status u = None
      \<and> gu_priority u = None \<and> gu_deadline u = None)"

text \<open>The query builder refuses a \<open>set\<close> without any field (\<open>No values to set\<close>), which
  the operation reports as a database error.\<close>

definition updateGoal :: "uuid \<Rightarrow> GoalUpdate \<Rightarrow> database \<Rightarrow> (error + unit) \<times> database" where
  "updateGoal i u d =
     (case getGoalById i d of
        None \<Rightarrow> (Inl (ChatSDKError ''not_found:goal'' ''Goal not found''), d)
      | Some existingGoal \<Rightarrow>
          if (case gu_title u of Some t \<Rightarrow> trim t = [] | None \<Rightarrow> False)
          then (Inl (ChatSDKError ''bad_request:goal'' ''Title cannot be empty''), d)
          else if invalidOption (gu_status u) statusValues
          then (Inl (ChatSDKError ''bad_request:goal'' ''Invalid status value''), d)
          else if invalidOption (gu_priority u) priorityValues
          then (Inl (ChatSDKError ''bad_request:goal'' ''Invalid priority value''), d)
          else if emptyGoalUpdate u
          then (Inl (ChatSDKError ''bad_request:database'' ''Failed to update goal''), d)
          else (Inr (),
                d\<lparr>goalTable :=
                    map (\<lambda>g. if goal_id g = i then applyGoalUpdate u g else g) (goalTable d)\<rparr>))"

text \<open>Deleting a goal deletes its steps (\<open>ON DELETE cascade\<close>).\<close>

definition deleteGoal :: "uuid \<Rightarrow> database \<Rightarrow> (error + Goal option) \<times> database" where
  "deleteGoal i d =
     (Inr (getGoalById i d),
      d\<lparr>goalTable := filter (\<lambda>g. goal_id g \<noteq> i) (goalTable d),
        stepTable := filter (\<lambda>s. step_goalId s \<noteq> i) (stepTable d)\<rparr>)"


subsection \<open>Steps\<close>

text \<open>A step to create: \<open>{ title: string; order?: number }\<close>.\<close>

record StepData =
  sd_title :: string
  sd_order :: "int option"

definition stepRow :: "uuid \<Rightarrow> string \<Rightarrow> int \<Rightarrow> timestamp \<Rightarrow> Step" where
  "stepRow goalId title ord now =
     \<lparr>step_id = 0, step_goalId = goalId, step_title = title, step_isCompleted = False,
      step_order = ord, step_completedAt = None, step_createdAt = now\<rparr>"

text \<open>\<open>existingSteps.length > 0 ? Math.max(...existingSteps.map((s) => s.order)) : -1\<close>
  over the steps of the goal.\<close>

definition maxOrder :: "uuid \<Rightarrow> database \<Rightarrow> int" where
  "maxOrder goalId d =
     (case map step_order (filter (\<lambda>s. step_goalId s = goalId) (stepTable d)) of
        [] \<Rightarrow> - 1
      | x # xs \<Rightarrow> fold max xs x)"

definition createStep ::
  "uuid \<Rightarrow> string \<Rightarrow> int option \<Rightarrow> timestamp \<Rightarrow> database \<Rightarrow> (error + Step option) \<times> database" where
  "createStep goalId title providedOrder now d =
     (if trim title = []
      then (Inl (ChatSDKError ''bad_request:goal'' ''Step title cannot be empty''), d)
      else (case getGoalById goalId d of
              None \<Rightarrow> (Inl (ChatSDKError ''not_found:goal'' ''Goal not found''), d)
            | Some goalExists \<Rightarrow>
                (let stepOrder = (case providedOrder of Some v \<Rightarrow> v | None \<Rightarrow> maxOrder goalId d + 1)
                 in case insertSteps [stepRow goalId title stepOrder now] d of
                      Inl e \<Rightarrow> (Inl (ChatSDKError ''bad_request:database'' ''Failed to create step''), d)
                    | Inr (created, d') \<Rightarrow>
                        (Inr (case created of [] \<Rightarrow> None | createdStep # rest \<Rightarrow> Some createdStep), d'))))"

text \<open>\<open>stepsData.map((stepData) => ({ ..., order: stepData.order ?? currentOrder++ }))\<close>:
  the counter moves only past the steps without an order of their own.\<close>

fun stepsToInsert :: "uuid \<Rightarrow> timestamp \<Rightarrow> int \<Rightarrow> StepData list \<Rightarrow> Step list" where
  "stepsToInsert goalId now currentOrder [] = []"
| "stepsToInsert goalId now currentOrder (stepData # rest) =
     (case sd_order stepData of
        Some v \<Rightarrow> stepRow goalId (sd_title stepData) v now # stepsToInsert goalId now currentOrder rest
      | None \<Rightarrow>
          stepRow goalId (sd_title stepData) currentOrder now
            # stepsToInsert goalId now (currentOrder + 1) rest)"

definition createSteps ::
  "uuid \<Rightarrow> StepData list \<Rightarrow> timestamp \<Rightarrow> database \<Rightarrow> (error + Step list) \<times> database" where
  "createSteps goalId stepsData now d =
     (case insertSteps (stepsToInsert goalId now (maxOrder goalId d + 1) stepsData) d of
        Inl e \<Rightarrow> (Inl (ChatSDKError ''bad_request:database'' ''Failed to create steps''), d)
      | Inr (created, d') \<Rightarrow> (Inr created, d'))"

text \<open>
  \<open>orderBy(asc(step.order))\<close>: the rows come in ascending \<open>order\<close>. Among rows with
  the same \<open>order\<close> the storage is free to return them in any sequence, and not in the
  same one each time; the argument \<open>tie\<close> is the rank it gives the rows at this query.
\<close>

definition getStepsByGoalId :: "(uuid \<Rightarrow> nat) \<Rightarrow> uuid \<Rightarrow> database \<Rightarrow> Step list" where
  "getStepsByGoalId tie goalId d =
     sort_key step_order
       (sort_key (\<lambda>s. tie (step_id s)) (filter (\<lambda>s. step_goalId s = goalId) (stepTable d)))"

definition updateStep ::
  "idText \<Rightarrow> string option \<Rightarrow> jsValue option \<Rightarrow> timestamp \<Rightarrow> database
     \<Rightarrow> (error + unit) \<times> database" where
  "updateStep i title isCompleted now d =
     (case selectStepById i d of
        Inl e \<Rightarrow> (Inl (ChatSDKError ''bad_request:database'' ''Failed to update step''), d)
      | Inr None \<Rightarrow> (Inl (ChatSDKError ''not_found:goal'' ''Step not found''), d)
      | Inr (Some existingStep) \<Rightarrow>
          if (case title of Some t \<Rightarrow> trim t = [] | None \<Rightarrow> False)
          then (Inl (ChatSDKError ''bad_request:goal'' ''Step title cannot be empty''), d)
          else (case setStepWhereId (step_id existingStep)
                       (buildUpdateData title isCompleted None now) d of
                  Inl e \<Rightarrow> (Inl (ChatSDKError ''bad_request:database'' ''Failed to update step''), d)
                | Inr d' \<Rightarrow> (Inr (), d')))"

text \<open>
  The statements of the transaction of \<open>deleteStep\<close> are numbered: 0 selects the step,
  1 deletes it, 2 selects the remaining steps of its goal, and \<open>3 + i\<close> writes the order
  \<open>i\<close>. \<open>fault n\<close> is the message of the error with which the storage fails statement \<open>n\<close>
  for a reason outside the model, if it does.

  The loop over \<open>remainingSteps\<close>, from index \<open>i\<close> on:
\<close>

fun renumber ::
  "(nat \<Rightarrow> string option) \<Rightarrow> nat \<Rightarrow> Step list \<Rightarrow> database \<Rightarrow> (error + unit) \<times> database" where
  "renumber fault i [] tx = (Inr (), tx)"
| "renumber fault i (r # rs) tx =
     (case fault (3 + i) of
        Some m \<Rightarrow> (Inl (DriverError m), tx)
      | None \<Rightarrow>
          renumber fault (Suc i) rs
            (updateStepWhereId (step_id r) (\<lambda>s. s\<lparr>step_order := int i\<rparr>) tx))"

definition deleteStepBody ::
  "idText \<Rightarrow> (nat \<Rightarrow> string option) \<Rightarrow> (uuid \<Rightarrow> nat) \<Rightarrow> database
     \<Rightarrow> (error + Step option) \<times> database" where
  "deleteStepBody i fault tie tx =
     (case (case fault 0 of Some m \<Rightarrow> Inl (DriverError m) | None \<Rightarrow> selectStepById i tx) of
        Inl e \<Rightarrow> (Inl e, tx)
      | Inr None \<Rightarrow> (Inr None, tx)
      | Inr (Some deletedStep) \<Rightarrow>
          (case fault 1 of
             Some m \<Rightarrow> (Inl (DriverError m), tx)
           | None \<Rightarrow>
               (let tx1 = tx\<lparr>stepTable :=
                              filter (\<lambda>s. step_id s \<noteq> step_id deletedStep) (stepTable tx)\<rparr>
                in case fault 2 of
                     Some m \<Rightarrow> (Inl (DriverError m), tx1)
                   | None \<Rightarrow>
                       (let remainingSteps = getStepsByGoalId tie (step_goalId deletedStep) tx1
                        in case renumber fault 0 remainingSteps tx1 of
                             (Inl e, tx2) \<Rightarrow> (Inl e, tx2)
                           | (Inr u, tx2) \<Rightarrow> (Inr (Some deletedStep), tx2)))))"

text \<open>\<open>catch (_error)\<close>: whatever the transaction throws becomes the same
  \<open>ChatSDKError\<close>.\<close>

definition deleteStep ::
  "idText \<Rightarrow> (nat \<Rightarrow> string option) \<Rightarrow> (uuid \<Rightarrow> nat) \<Rightarrow> database
     \<Rightarrow> (error + Step option) \<times> database" where
  "deleteStep i fault tie d =
     (case transaction (deleteStepBody i fault tie) d of
        (Inl e, d') \<Rightarrow> (Inl (ChatSDKError ''bad_request:database'' ''Failed to delete step''), d')
      | (Inr r, d') \<Rightarrow> (Inr r, d'))"

definition toggleStepCompletion ::
  "idText \<Rightarrow> timestamp \<Rightarrow> database \<Rightarrow> (error + unit) \<times> database" where
  "toggleStepCompletion i now d =
     (case selectStepById i d of
        Inl e \<Rightarrow>
          (Inl (ChatSDKError ''bad_request:database'' ''Failed to toggle step completion''), d)
      | Inr None \<Rightarrow> (Inl (ChatSDKError ''not_found:goal'' ''Step not found''), d)
      | Inr (Some currentStep) \<Rightarrow>
          (let newCompletedState = \<not> step_isCompleted currentStep
           in (Inr (),
               updateStepWhereId (step_id currentStep)
                 (\<lambda>s. s\<lparr>step_isCompleted := newCompletedState,
                         step_completedAt := (if newCompletedState then Some now else None)\<rparr>) d)))"

subsection \<open>Composite operations\<close>

text \<open>\<open>stepsData.map((stepData, index) => ({ ..., order: stepData.order ?? index }))\<close>.\<close>

definition indexedSteps :: "uuid \<Rightarrow> timestamp \<Rightarrow> StepData list \<Rightarrow> Step list" where
  "indexedSteps goalId now stepsData =
     map (\<lambda>(index, stepData).
            stepRow goalId (sd_title stepData)
              (case sd_order stepData of Some v \<Rightarrow> v | None \<Rightarrow> int index) now)
       (enumerate 0 stepsData)"

text \<open>The two statements of the transaction. \<open>fault n\<close> is the message of the error with
  which the storage fails statement \<open>n\<close> for a reason outside the model, if it does.\<close>

definition createGoalWithStepsBody ::
  "GoalInput \<Rightarrow> StepData list \<Rightarrow> (nat \<Rightarrow> string option) \<Rightarrow> timestamp \<Rightarrow> database
     \<Rightarrow> (error + Goal \<times> Step list) \<times> database" where
  "createGoalWithStepsBody a stepsData fault now tx =
     (case (case fault 0 of Some m \<Rightarrow> Inl (DriverError m) | None \<Rightarrow> insertGoal (goalRow a now) tx) of
        Inl e \<Rightarrow> (Inl e, tx)
      | Inr (createdGoal, tx1) \<Rightarrow>
          (case (case fault 1 of
                   Some m \<Rightarrow> Inl (DriverError m)
                 | None \<Rightarrow> insertSteps (indexedSteps (goal_id createdGoal) now stepsData) tx1) of
             Inl e \<Rightarrow> (Inl e, tx1)
           | Inr (createdSteps, tx2) \<Rightarrow> (Inr (createdGoal, createdSteps), tx2)))"

text \<open>\<open>error instanceof Error ? error.message : String(error)\<close>; a \<open>ChatSDKError\<close> is
  an \<open>Error\<close> whose message is the one it was built with.\<close>

fun errorMessage :: "error \<Rightarrow> string" where
  "errorMessage (ChatSDKError code m) = m"
| "errorMessage (DriverError m) = m"

definition createGoalWithSteps ::
  "GoalInput \<Rightarrow> StepData list \<Rightarrow> (nat \<Rightarrow> string option) \<Rightarrow> timestamp \<Rightarrow> database
     \<Rightarrow> (error + Goal \<times> Step list) \<times> database" where
  "createGoalWithSteps a stepsData fault now d =
     (case transaction (createGoalWithStepsBody a stepsData fault now) d of
        (Inl e, d') \<Rightarrow>
          (Inl (ChatSDKError ''bad_request:database''
                  (''Failed to create goal with steps: '' @ errorMessage e)), d')
      | (Inr r, d') \<Rightarrow> (Inr r, d'))"

fun reorderLoop :: "uuid \<Rightarrow> (uuid \<times> int) list \<Rightarrow> database \<Rightarrow> (error + unit) \<times> database" where
  "reorderLoop goalId [] tx = (Inr (), tx)"
| "reorderLoop goalId ((stepId, newOrder) # rest) tx =
     (case find (\<lambda>s. step_id s = stepId \<and> step_goalId s = goalId) (stepTable tx) of
        None \<Rightarrow>
          (Inl (ChatSDKError ''not_found:goal''
                  (''Step '' @ uuidText stepId @ '' not found or does not belong to goal ''
                     @ uuidText goalId)), tx)
      | Some stepToUpdate \<Rightarrow>
          reorderLoop goalId rest
            (updateStepWhereId stepId (\<lambda>s. s\<lparr>step_order := newOrder\<rparr>) tx))"

definition reorderSteps :: "uuid \<Rightarrow> (uuid \<times> int) list \<Rightarrow> database \<Rightarrow> (error + unit) \<times> database" where
  "reorderSteps goalId stepOrders d =
     (case transaction (reorderLoop goalId stepOrders) d of
        (Inl (ChatSDKError code m), d') \<Rightarrow> (Inl (ChatSDKError code m), d')
      | (Inl (DriverError m), d') \<Rightarrow>
          (Inl (ChatSDKError ''bad_request:database'' ''Failed to reorder steps''), d')
      | (Inr r, d') \<Rightarrow> (Inr r, d'))"

text \<open>An entry of \<open>updates\<close>: \<open>{ id; title?; isCompleted?; order? }\<close>, where \<open>isCompleted\<close>
  is typed as a boolean and is, at run time, whatever value the caller passed.\<close>

record StepUpdate =
  su_title :: "string option"
  su_isCompleted :: "jsValue option"
  su_order :: "int option"

fun bulkUpdateLoop ::
  "uuid \<Rightarrow> (uuid \<times> StepUpdate) list \<Rightarrow> timestamp \<Rightarrow> database \<Rightarrow> (error + unit) \<times> database" where
  "bulkUpdateLoop goalId [] now tx = (Inr (), tx)"
| "bulkUpdateLoop goalId ((stepId, u) # rest) now tx =
     (case find (\<lambda>s. step_id s = stepId \<and> step_goalId s = goalId) (stepTable tx) of
        None \<Rightarrow>
          (Inl (ChatSDKError ''not_found:goal''
                  (''Step '' @ uuidText stepId @ '' not found or does not belong to goal ''
                     @ uuidText goalId)), tx)
      | Some stepToUpdate \<Rightarrow>
          (case setStepWhereId stepId
                  (buildUpdateData (su_title u) (su_isCompleted u) (su_order u) now) tx of
             Inl e \<Rightarrow> (Inl e, tx)
           | Inr tx' \<Rightarrow> bulkUpdateLoop goalId rest now tx'))"

definition bulkUpdateSteps ::
  "uuid \<Rightarrow> (uuid \<times> StepUpdate) list \<Rightarrow> timestamp \<Rightarrow> database \<Rightarrow> (error + unit) \<times> database" where
  "bulkUpdateSteps goalId updates now d =
     (case transaction (bulkUpdateLoop goalId updates now) d of
        (Inl (ChatSDKError code m), d') \<Rightarrow> (Inl (ChatSDKError code m), d')
      | (Inl (DriverError m), d') \<Rightarrow>
          (Inl (ChatSDKError ''bad_request:database'' ''Failed to bulk update steps''), d')
      | (Inr r, d') \<Rightarrow> (Inr r, d'))"

subsection \<open>Server actions\<close>

text \<open>\<open>await auth()\<close> is the argument \<open>sessionUser\<close>: the identifier of the signed-in
  user, if there is one.\<close>

datatype actionResult = Success

definition deleteStepAction ::
  "uuid option \<Rightarrow> idText \<Rightarrow> (nat \<Rightarrow> string option) \<Rightarrow> (uuid \<Rightarrow> nat) \<Rightarrow> database
     \<Rightarrow> (error + actionResult) \<times> database" where
  "deleteStepAction sessionUser stepId fault tie d =
     (case sessionUser of
        None \<Rightarrow> (Inl (ChatSDKError ''unauthorized:chat'' ''You must be signed in''), d)
      | Some user \<Rightarrow>
          (case deleteStep stepId fault tie d of
             (Inl e, d') \<Rightarrow> (Inl e, d')
           | (Inr r, d') \<Rightarrow> (Inr Success, d')))"


section \<open>Progress of a goal\<close>

text \<open>
  A JavaScript number is an IEEE 754 binary64 value, and each arithmetic operation rounds
  its exact result to the nearest one, ties to even. \<open>binary64\<close> is that rounding for
  the positive rationals of the normal range, which is where the quotient of two array
  lengths and its product with 100 lie: 53 significant bits at the exponent of the value.
\<close>

fun log2floor :: "nat \<Rightarrow> nat" where
  "log2floor n = (if n < 2 then 0 else Suc (log2floor (n div 2)))"

text \<open>How often \<open>a\<close> is doubled until it reaches \<open>b\<close>.\<close>

function doublings :: "nat \<Rightarrow> nat \<Rightarrow> nat" where
  "doublings a b = (if a = 0 \<or> b \<le> a then 0 else Suc (doublings (2 * a) b))"
  by pat_completeness auto
termination
  by (relation "measure (\<lambda>(a, b). b - a)") auto

text \<open>The exponent \<open>e\<close> of a positive rational \<open>x\<close>: \<open>2^e \<le> x < 2^(e+1)\<close>.\<close>

definition exponent :: "rat \<Rightarrow> int" where
  "exponent x =
     (let (a, b) = quotient_of x
      in if b \<le> a then int (log2floor (nat (a div b))) else - int (doublings (nat a) (nat b)))"

definition roundTiesToEven :: "rat \<Rightarrow> int" where
  "roundTiesToEven x =
     (let f = \<lfloor>x\<rfloor>; r = x - of_int f
      in if r < 1 / 2 then f else if 1 / 2 < r then f + 1 else if even f then f else f + 1)"

definition binary64 :: "rat \<Rightarrow> rat" where
  "binary64 x =
     (if x \<le> 0 then 0
      else (let ulp = power_int 2 (exponent x - 52)
            in of_int (roundTiesToEven (x / ulp)) * ulp))"

text \<open>\<open>Math.round\<close>: the nearest integer, a tie going up.\<close>

definition mathRound :: "rat \<Rightarrow> int" where
  "mathRound x = \<lfloor>x + 1 / 2\<rfloor>"

record Progress =
  pr_completed :: nat
  pr_total :: nat
  pr_percentage :: int

text \<open>\<open>Math.round((completed / total) * 100)\<close>: the division and the multiplication
  each round to binary64.\<close>

definition getGoalProgress :: "(uuid \<Rightarrow> nat) \<Rightarrow> uuid \<Rightarrow> database \<Rightarrow> Progress" where
  "getGoalProgress tie goalId d =
     (let stepList = getStepsByGoalId tie goalId d;
          total = length stepList;
          completed = length (filter step_isCompleted stepList);
          percentage =
            (if total > 0
             then mathRound (binary64 (binary64 (of_nat completed / of_nat total) * 100))
             else 0)
      in \<lparr>pr_completed = completed, pr_total = total, pr_percentage = percentage\<rparr>)"

section \<open>Sequences of operations\<close>

text \<open>The operations that write to the two tables, with their arguments.\<close>

datatype operation =
    CreateGoal GoalInput timestamp
  | UpdateGoal uuid GoalUpdate
  | DeleteGoal uuid
  | CreateStep uuid string "int option" timestamp
  | CreateSteps uuid "StepData list" timestamp
  | UpdateStep idText "string option" "jsValue option" timestamp
  | DeleteStep idText "nat \<Rightarrow> string option" "uuid \<Rightarrow> nat"
  | ToggleStepCompletion idText timestamp
  | CreateGoalWithSteps GoalInput "StepData list" "nat \<Rightarrow> string option" timestamp
  | ReorderSteps uuid "(uuid \<times> int) list"
  | BulkUpdateSteps uuid "(uuid \<times> StepUpdate) list" timestamp

text \<open>The store after an operation, whether it returned or threw.\<close>

fun perform :: "operation \<Rightarrow> database \<Rightarrow> database" where
  "perform (CreateGoal a now) d = snd (createGoal a now d)"
| "perform (UpdateGoal i u) d = snd (updateGoal i u d)"
| "perform (DeleteGoal i) d = snd (deleteGoal i d)"
| "perform (CreateStep goalId title providedOrder now) d =
     snd (createStep goalId title providedOrder now d)"
| "perform (CreateSteps goalId stepsData now) d = snd (createSteps goalId stepsData now d)"
| "perform (UpdateStep i title isCompleted now) d = snd (updateStep i title isCompleted now d)"
| "perform (DeleteStep i fault tie) d = snd (deleteStep i fault tie d)"
| "perform (ToggleStepCompletion i now) d = snd (toggleStepCompletion i now d)"
| "perform (CreateGoalWithSteps a stepsData fault now) d =
     snd (createGoalWithSteps a stepsData fault now d)"
| "perform (ReorderSteps goalId stepOrders) d = snd (reorderSteps goalId stepOrders d)"
| "perform (BulkUpdateSteps goalId updates now) d = snd (bulkUpdateSteps goalId updates now d)"

text \<open>The values of \<open>isCompleted\<close> that an operation passes on to the storage.\<close>

fun completionValues :: "operation \<Rightarrow> jsValue list" where
  "completionValues (UpdateStep i title isCompleted now) =
     (case isCompleted of Some v \<Rightarrow> [v] | None \<Rightarrow> [])"
| "completionValues (BulkUpdateSteps goalId updates now) =
     concat (map (\<lambda>(stepId, u). case su_isCompleted u of Some v \<Rightarrow> [v] | None \<Rightarrow> []) updates)"
| "completionValues other = []"

section \<open>Notions of the statements\<close>

text \<open>The text has a steps label: the pattern that opens the steps section matches
  somewhere.\<close>

definition hasStepsLabel :: "string \<Rightarrow> bool" where
  "hasStepsLabel text = (rx_search (stepsLabel (rx_accept ())) text \<noteq> None)"

text \<open>A matcher that succeeds keeps succeeding when its continuation is replaced by one
  that succeeds wherever the first does; the two continuations may return different
  things.\<close>

definition rx_le :: "('a cont \<Rightarrow> 'a cont) \<Rightarrow> ('b cont \<Rightarrow> 'b cont) \<Rightarrow> bool" where
  "rx_le m m' =
     (\<forall>k k' s. (\<forall>t. k t \<noteq> None \<longrightarrow> k' t \<noteq> None) \<longrightarrow> m k s \<noteq> None \<longrightarrow> m' k' s \<noteq> None)"

text \<open>\<open>completedAt\<close> is set exactly on the completed steps.\<close>

definition completionConsistent :: "Step \<Rightarrow> bool" where
  "completionConsistent s = ((step_completedAt s \<noteq> None) = step_isCompleted s)"

definition stepsConsistent :: "database \<Rightarrow> bool" where
  "stepsConsistent d = (\<forall>s \<in> set (stepTable d). completionConsistent s)"

text \<open>A value of \<open>isCompleted\<close> that the storage refuses, or reads as the boolean that its
  truthiness is: a boolean, a number, the string \<open>true\<close>; not the string \<open>false\<close>.\<close>

definition readAsTruthy :: "jsValue \<Rightarrow> bool" where
  "readAsTruthy v = (case pgBoolean v of Some b \<Rightarrow> b = truthy v | None \<Rightarrow> True)"

text \<open>The goal and the steps that \<open>createGoalWithSteps\<close> is to persist: the
  identifiers are the next ones of the store, the order of a step is its own or its
  index.\<close>

definition persistedGoal :: "GoalInput \<Rightarrow> timestamp \<Rightarrow> database \<Rightarrow> Goal" where
  "persistedGoal a now d = (goalRow a now)\<lparr>goal_id := nextUuid d\<rparr>"

definition persistedSteps :: "StepData list \<Rightarrow> timestamp \<Rightarrow> database \<Rightarrow> Step list" where
  "persistedSteps stepsData now d =
     map (\<lambda>(index, stepData).
            \<lparr>step_id = Suc (nextUuid d) + index, step_goalId = nextUuid d,
             step_title = sd_title stepData, step_isCompleted = False,
             step_order = (case sd_order stepData of Some v \<Rightarrow> v | None \<Rightarrow> int index),
             step_completedAt = None, step_createdAt = now\<rparr>)
       (enumerate 0 stepsData)"


definition renumbered :: "(uuid \<rightharpoonup> nat) \<Rightarrow> Step \<Rightarrow> Step" where
  "renumbered m s = (case m (step_id s) of Some j \<Rightarrow> s\<lparr>step_order := int j\<rparr> | None \<Rightarrow> s)"



section \<open>Sample data\<close>

definition guitarText :: string where
  "guitarText =
     ''Goal: Learn guitar'' @ [LF] @ ''Steps:'' @ [LF] @ ''1. Buy a guitar'' @ [LF]
       @ ''2. Practice daily''"

definition listOnlyText :: string where
  "listOnlyText = ''1. Buy a guitar'' @ [LF] @ ''2. Practice daily''"


definition randomText :: string where
  "randomText = ''random text with no structure''"

definition sampleDb :: database where
  "sampleDb =
     \<lparr>goalTable = [], stepTable = [], chatTable = [\<lparr>chat_id = 1, chat_userId = 2\<rparr>],
      userTable = [2], messageTable = [3], nextUuid = 10\<rparr>"

definition sampleGoal :: Goal where
  "sampleGoal =
     \<lparr>goal_id = 10, goal_chatId = 1, goal_userId = 2, goal_createdFromMessageId = Some 3,
      goal_title = ''Learn guitar'', goal_description = None, goal_status = ''not_started'',
      goal_priority = ''medium'', goal_deadline = None, goal_createdAt = 100\<rparr>"

text \<open>A store with one goal and no steps.\<close>

definition goalDb :: database where
  "goalDb = sampleDb\<lparr>goalTable := [sampleGoal], nextUuid := 11\<rparr>"

definition sampleInput :: GoalInput where
  "sampleInput =
     \<lparr>gi_chatId = 1, gi_userId = 2, gi_title = ''Learn guitar'', gi_description = None,
      gi_status = None, gi_priority = None, gi_deadline = None,
      gi_createdFromMessageId = Some 3\<rparr>"

definition sampleSteps :: "StepData list" where
  "sampleSteps =
     [\<lparr>sd_title = ''Buy a guitar'', sd_order = None\<rparr>,
      \<lparr>sd_title = ''Practice daily'', sd_order = Some 5\<rparr>,
      \<lparr>sd_title = ''Play a song'', sd_order = None\<rparr>]"

definition noFault :: "nat \<Rightarrow> string option" where
  "noFault n = None"

text \<open>The storage fails the second statement of a transaction.\<close>

definition secondFails :: "nat \<Rightarrow> string option" where
  "secondFails n = (if n = 1 then Some ''connection lost'' else None)"


text \<open>Two ways in which the storage may rank rows with the same \<open>order\<close>.\<close>

definition oldestFirst :: "uuid \<Rightarrow> nat" where
  "oldestFirst u = u"


text \<open>A sequence of operations on the sample store.\<close>

definition sampleOps :: "operation list" where
  "sampleOps =
     [CreateGoalWithSteps sampleInput sampleSteps noFault 100,
      ToggleStepCompletion (UuidText 11) 150,
      UpdateStep (UuidText 12) None (Some (JBool True)) 160,
      ToggleStepCompletion (UuidText 12) 170,
      CreateStep 10 ''Tune the guitar'' None 180,
      BulkUpdateSteps 10
        [(13, \<lparr>su_title = None, su_isCompleted = Some (JNumber 1), su_order = Some 1\<rparr>)] 190,
      UpdateStep (UuidText 14) None (Some (JString ''maybe'')) 200]"

text \<open>A store with two goals; the first has four steps.\<close>

definition stepsDb :: database where
  "stepsDb =
     sampleDb\<lparr>goalTable := [sampleGoal, sampleGoal\<lparr>goal_id := 20, goal_title := ''Run''\<rparr>],
       stepTable :=
         [\<lparr>step_id = 11, step_goalId = 10, step_title = ''Buy a guitar'', step_isCompleted = False,
           step_order = 0, step_completedAt = None, step_createdAt = 100\<rparr>,
          \<lparr>step_id = 21, step_goalId = 20, step_title = ''Buy shoes'', step_isCompleted = False,
           step_order = 4, step_completedAt = None, step_createdAt = 100\<rparr>,
          \<lparr>step_id = 12, step_goalId = 10, step_title = ''Practice daily'', step_isCompleted = False,
           step_order = 1, step_completedAt = None, step_createdAt = 100\<rparr>,
          \<lparr>step_id = 13, step_goalId = 10, step_title = ''Play a song'', step_isCompleted = True,
           step_order = 2, step_completedAt = Some 150, step_createdAt = 100\<rparr>,
          \<lparr>step_id = 14, step_goalId = 10, step_title = ''Tune the guitar'', step_isCompleted = False,
           step_order = 3, step_completedAt = None, step_createdAt = 100\<rparr>],
       nextUuid := 30\<rparr>"


text \<open>A goal with three steps, one of them completed.\<close>

definition threeStepsDb :: database where
  "threeStepsDb =
     goalDb\<lparr>stepTable :=
       [\<lparr>step_id = 11, step_goalId = 10, step_title = ''Buy a guitar'', step_isCompleted = True,
         step_order = 0, step_completedAt = Some 150, step_createdAt = 100\<rparr>,
        \<lparr>step_id = 12, step_goalId = 10, step_title = ''Practice daily'', step_isCompleted = False,
         step_order = 1, step_completedAt = None, step_createdAt = 100\<rparr>,
        \<lparr>step_id = 13, step_goalId = 10, step_title = ''Play a song'', step_isCompleted = False,
         step_order = 2, step_completedAt = None, step_createdAt = 100\<rparr>]\<rparr>"

text \<open>A goal with forty steps, the first twenty-three of them completed.\<close>

definition fortyStepsDb :: database where
  "fortyStepsDb =
     goalDb\<lparr>stepTable :=
       map (\<lambda>n. \<lparr>step_id = 100 + n, step_goalId = 10, step_title = ''Practice'',
                 step_isCompleted = (n < 23), step_order = int n,
                 step_completedAt = (if n < 23 then Some 150 else None), step_createdAt = 100\<rparr>)
         [0..<40]\<rparr>"

section \<open>Properties of the patterns\<close>

lemma rx_leI:
  assumes "\<And>k k' s. (\<And>t. k t \<noteq> None \<Longrightarrow> k' t \<noteq> None) \<Longrightarrow> m k s \<noteq> None \<Longrightarrow> m' k' s \<noteq> None"
  shows "rx_le m m'"
  unfolding rx_le_def using assms by blast

lemma rx_leD:
  assumes "rx_le m m'" and "\<And>t. k t \<noteq> None \<Longrightarrow> k' t \<noteq> None" and "m k s \<noteq> None"
  shows "m' k' s \<noteq> None"
proof -
  from assms(1) have "(\<forall>t. k t \<noteq> None \<longrightarrow> k' t \<noteq> None) \<longrightarrow> m k s \<noteq> None \<longrightarrow> m' k' s \<noteq> None"
    unfolding rx_le_def by (elim allE)
  with assms(2,3) show ?thesis by blast
qed

lemma rx_lit_ci_mono:
  assumes "\<And>t. k t \<noteq> None \<Longrightarrow> k' t \<noteq> None"
  shows "rx_lit_ci w k s \<noteq> None \<Longrightarrow> rx_lit_ci w k' s \<noteq> None"
proof (induction w arbitrary: s)
  case Nil
  then show ?case using assms by simp
next
  case (Cons p ps)
  then show ?case by (cases s) (auto split: if_splits)
qed

lemma rx_lit_mono:
  assumes "\<And>t. k t \<noteq> None \<Longrightarrow> k' t \<noteq> None"
  shows "rx_lit w k s \<noteq> None \<Longrightarrow> rx_lit w k' s \<noteq> None"
proof (induction w arbitrary: s)
  case Nil
  then show ?case using assms by simp
next
  case (Cons p ps)
  then show ?case by (cases s) (auto split: if_splits)
qed

lemma rx_star_mono:
  assumes "\<And>t. k t \<noteq> None \<Longrightarrow> k' t \<noteq> None"
  shows "rx_star p k s \<noteq> None \<Longrightarrow> rx_star p k' s \<noteq> None"
proof (induction s)
  case Nil
  then show ?case using assms by simp
next
  case (Cons c cs)
  show ?case
  proof (cases "p c \<and> rx_star p k cs \<noteq> None")
    case True
    with Cons.IH have "rx_star p k' cs \<noteq> None" by blast
    with True show ?thesis by (auto split: option.splits)
  next
    case False
    with Cons.prems have "k (c # cs) \<noteq> None" by (auto split: if_splits)
    then have "k' (c # cs) \<noteq> None" by (rule assms)
    then show ?thesis by (auto split: option.splits)
  qed
qed

lemma rx_plus_mono:
  assumes "\<And>t. k t \<noteq> None \<Longrightarrow> k' t \<noteq> None"
  shows "rx_plus p k s \<noteq> None \<Longrightarrow> rx_plus p k' s \<noteq> None"
  unfolding rx_plus_def using rx_star_mono [of k k' p, OF assms]
  by (auto split: list.splits if_splits)

lemma rx_le_lit_ci: "rx_le (rx_lit_ci w) (rx_lit_ci w)"
  by (rule rx_leI) (rule rx_lit_ci_mono)

lemma rx_le_lit: "rx_le (rx_lit w) (rx_lit w)"
  by (rule rx_leI) (rule rx_lit_mono)

lemma rx_le_star: "rx_le (rx_star p) (rx_star p)"
  by (rule rx_leI) (rule rx_star_mono)

lemma rx_le_plus: "rx_le (rx_plus p) (rx_plus p)"
  by (rule rx_leI) (rule rx_plus_mono)

lemma rx_le_opt:
  assumes "rx_le m m'"
  shows "rx_le (rx_opt m) (rx_opt m')"
proof (rule rx_leI)
  fix k :: "'a cont" and k' :: "'b cont" and s
  assume le: "\<And>t. k t \<noteq> None \<Longrightarrow> k' t \<noteq> None" and ok: "rx_opt m k s \<noteq> None"
  show "rx_opt m' k' s \<noteq> None"
  proof (cases "m k s")
    case None
    with ok have "k s \<noteq> None" by (simp add: rx_opt_def)
    then have "k' s \<noteq> None" by (rule le)
    then show ?thesis by (simp add: rx_opt_def split: option.splits)
  next
    case (Some r)
    then have "m k s \<noteq> None" by simp
    with assms le have "m' k' s \<noteq> None" by (rule rx_leD)
    then show ?thesis by (auto simp: rx_opt_def split: option.splits)
  qed
qed

lemma rx_le_comp:
  assumes "rx_le m1 m1'" and "rx_le m2 m2'"
  shows "rx_le (m1 \<circ> m2) (m1' \<circ> m2')"
proof (rule rx_leI)
  fix k :: "'a cont" and k' :: "'b cont" and s
  assume le: "\<And>t. k t \<noteq> None \<Longrightarrow> k' t \<noteq> None" and ok: "(m1 \<circ> m2) k s \<noteq> None"
  have inner: "m2 k t \<noteq> None \<Longrightarrow> m2' k' t \<noteq> None" for t
    using assms(2) le by (rule rx_leD)
  from ok have "m1 (m2 k) s \<noteq> None" by simp
  with assms(1) inner have "m1' (m2' k') s \<noteq> None" by (rule rx_leD)
  then show "(m1' \<circ> m2') k' s \<noteq> None" by simp
qed

lemma rx_search_mono:
  assumes "\<And>t. m t \<noteq> None \<Longrightarrow> m' t \<noteq> None"
  shows "rx_search m s \<noteq> None \<Longrightarrow> rx_search m' s \<noteq> None"
proof (induction s)
  case Nil
  then show ?case using assms by simp
next
  case (Cons c cs)
  show ?case
  proof (cases "m (c # cs)")
    case None
    with Cons have "rx_search m' cs \<noteq> None" by simp
    then show ?thesis by (auto split: option.splits)
  next
    case (Some r)
    then have "m (c # cs) \<noteq> None" by simp
    then have "m' (c # cs) \<noteq> None" by (rule assms)
    then show ?thesis by (auto split: option.splits)
  qed
qed

lemma stepsLabel_le: "rx_le stepsLabel stepsLabel"
  unfolding stepsLabel_def
  by (intro rx_le_comp rx_le_opt rx_le_lit_ci rx_le_plus rx_le_star)

text \<open>Without a steps label neither pattern for the steps section matches.\<close>

lemma stepsLabel_needed:
  assumes "rx_search (stepsLabel k) text \<noteq> None"
  shows "hasStepsLabel text"
proof -
  have "stepsLabel k t \<noteq> None \<Longrightarrow> stepsLabel (rx_accept ()) t \<noteq> None" for t
    by (rule rx_leD [OF stepsLabel_le]) (simp_all add: rx_accept_def)
  from rx_search_mono [of "stepsLabel k" "stepsLabel (rx_accept ())", OF this assms]
  show ?thesis by (simp add: hasStepsLabel_def)
qed

lemma stepsMatch_None: "\<not> hasStepsLabel text \<Longrightarrow> stepsMatch text = None"
  unfolding stepsMatch_def using stepsLabel_needed by blast

lemma stepsSectionMatch_None: "\<not> hasStepsLabel text \<Longrightarrow> stepsSectionMatch text = None"
  unfolding stepsSectionMatch_def using stepsLabel_needed by blast

text \<open>The fallback reads from all lines what the pipeline after the label reads from
  the lines of the steps section.\<close>

lemma numbered_listMarker: "numbered line \<noteq> None \<Longrightarrow> listMarker line"
proof -
  assume a: "numbered line \<noteq> None"
  have le: "rx_le (rx_plus isDigit \<circ> rx_lit ''.'') (rx_plus isDigit \<circ> rx_lit ''.'')"
    by (intro rx_le_comp rx_le_plus rx_le_lit)
  from a have "(rx_plus isDigit \<circ> rx_lit ''.'')
       (rx_star isWhiteSpace (rx_group (rx_plus dot) (\<lambda>g. rx_accept g))) line \<noteq> None"
    by (simp add: numbered_def)
  then have "(rx_plus isDigit \<circ> rx_lit ''.'') (rx_accept ()) line \<noteq> None"
    by (rule rx_leD [OF le, rotated]) (simp add: rx_accept_def)
  then show ?thesis by (simp add: listMarker_def rx_alt_def split: option.splits)
qed

lemma bulleted_listMarker: "bulleted line \<noteq> None \<Longrightarrow> listMarker line"
  by (cases line)
    (auto simp: bulleted_def listMarker_def rx_alt_def rx_class_def rx_accept_def
      split: option.splits if_splits)

lemma unmatched_itemTitle:
  "numbered line = None \<Longrightarrow> bulleted line = None \<Longrightarrow> itemTitle line = []"
  by (simp add: itemTitle_def)

lemma listItems_filter:
  "filter (\<lambda>title. length title > 0) (map itemTitle (filter listMarker ls)) =
   filter (\<lambda>title. length title > 0)
     (map itemTitle (filter (\<lambda>line. numbered line \<noteq> None \<or> bulleted line \<noteq> None) ls))"
proof (induction ls)
  case Nil
  then show ?case by simp
next
  case (Cons l ls)
  show ?case
  proof (cases "numbered l \<noteq> None \<or> bulleted l \<noteq> None")
    case True
    then have "listMarker l" using numbered_listMarker bulleted_listMarker by blast
    with True Cons show ?thesis by simp
  next
    case False
    then have "itemTitle l = []" by (simp add: unmatched_itemTitle)
    with False Cons show ?thesis by simp
  qed
qed

lemma listItems_labelledSteps: "listItems text = labelledSteps text"
  unfolding listItems_def labelledSteps_def by (rule listItems_filter)


section \<open>The extractor on the sample texts\<close>

lemma guitar_goalMatch: "goalMatch guitarText = Some ''Learn guitar''"
  by code_simp

lemma guitar_descriptionMatch: "descriptionMatch guitarText = None"
  by code_simp

lemma guitar_stepsSectionMatch: "stepsSectionMatch guitarText = Some listOnlyText"
  by code_simp

lemma guitar_stepLines:
  "stepLines ''Learn guitar'' None listOnlyText = [''Buy a guitar'', ''Practice daily'']"
  by code_simp

lemma guitar_stepsMatch: "stepsMatch guitarText = Some ''2. Practice daily''"
  by code_simp

lemma practice_labelledSteps: "labelledSteps ''2. Practice daily'' = [''Practice daily'']"
  by code_simp

lemma listOnly_goalMatch: "goalMatch listOnlyText = None"
  by code_simp

lemma listOnly_descriptionMatch: "descriptionMatch listOnlyText = None"
  by code_simp

lemma listOnly_no_label: "\<not> hasStepsLabel listOnlyText"
  by code_simp

lemma listOnly_stepLines:
  "stepLines ''New Goal'' None listOnlyText = [''Buy a guitar'', ''Practice daily'']"
  by code_simp

lemma listOnly_labelledSteps: "labelledSteps listOnlyText = [''Buy a guitar'', ''Practice daily'']"
  by code_simp

lemma random_goalMatch: "goalMatch randomText = None"
  by code_simp

lemma random_descriptionMatch: "descriptionMatch randomText = None"
  by code_simp

lemma random_no_label: "\<not> hasStepsLabel randomText"
  by code_simp

lemma random_labelledSteps: "labelledSteps randomText = []"
  by code_simp

section \<open>Theorems about the extractor\<close>

text \<open>
  Claim C3. On the text \<open>Goal: Learn guitar / Steps: / 1. Buy a guitar / 2. Practice daily\<close>
  (four lines) the extractor that reads everything after the label returns the goal
  title \<open>Learn guitar\<close>, no description, and the two steps in their order. The
  extractor with the fallback returns the same title and description but only the last
  step: the group of its pattern stands under \<open>+\<close> and keeps the text of the last
  repetition only.
\<close>

theorem guitar_plan:
  "extractPlanFromText guitarText =
     \<lparr>goalTitle = ''Learn guitar'', description = None,
      steps = [\<lparr>ps_title = ''Buy a guitar''\<rparr>, \<lparr>ps_title = ''Practice daily''\<rparr>]\<rparr>
   \<and> extractPlanFromText_fallback guitarText =
     \<lparr>goalTitle = ''Learn guitar'', description = None,
      steps = [\<lparr>ps_title = ''Practice daily''\<rparr>]\<rparr>"
  by (simp add: extractPlanFromText_def extractPlanFromText_fallback_def extractedSteps_def
      extractedSteps_fallback_def extractGoalTitle_def extractDescription_def
      guitar_goalMatch guitar_descriptionMatch guitar_stepsSectionMatch guitar_stepLines
      guitar_stepsMatch practice_labelledSteps trim_def isWhiteSpace_def)

text \<open>
  Claim C4, as the code has it. When the text has no steps label (\<open>Steps\<close> or
  \<open>Daily Steps\<close>, in any case, optionally between \<open>**\<close>, the colon optional, followed by
  white space that contains a line feed), the extractor with the fallback treats the
  whole text as the step block: its steps are the trimmed, non-empty titles of all lines
  that match the numbered or the bulleted pattern, in the order of the text, and the
  default step when there are none; it has no filter against the goal title or the
  description. The extractor with that filter has no fallback: without a label it
  returns the default step alone.
\<close>

theorem steps_without_label:
  assumes "\<not> hasStepsLabel text"
  shows "steps (extractPlanFromText_fallback text) =
           (if labelledSteps text = [] then defaultSteps
            else map (\<lambda>title. \<lparr>ps_title = title\<rparr>) (labelledSteps text))
         \<and> steps (extractPlanFromText text) = defaultSteps"
  using assms
  by (simp add: extractPlanFromText_def extractPlanFromText_fallback_def extractedSteps_def
      extractedSteps_fallback_def stepsMatch_None stepsSectionMatch_None
      listItems_labelledSteps Let_def)

theorem steps_without_label_witness:
  "\<not> hasStepsLabel listOnlyText
   \<and> steps (extractPlanFromText_fallback listOnlyText) =
       [\<lparr>ps_title = ''Buy a guitar''\<rparr>, \<lparr>ps_title = ''Practice daily''\<rparr>]
   \<and> steps (extractPlanFromText listOnlyText) = [\<lparr>ps_title = ''Start working on your goal''\<rparr>]"
  using steps_without_label [OF listOnly_no_label] listOnly_no_label
  by (simp add: listOnly_labelledSteps defaultSteps_def)

text \<open>The claim as it is written fails on the extractor that filters against the goal
  title and the description: the text of two numbered lines has no label, both lines
  match the numbered pattern and pass the filters, and the steps are the default step.\<close>

theorem fallback_missing_counterexample:
  "\<not> hasStepsLabel listOnlyText
   \<and> stepLines (extractGoalTitle listOnlyText) (extractDescription listOnlyText) listOnlyText =
       [''Buy a guitar'', ''Practice daily'']
   \<and> steps (extractPlanFromText listOnlyText) = [\<lparr>ps_title = ''Start working on your goal''\<rparr>]"
  using listOnly_no_label
  by (simp add: extractPlanFromText_def extractedSteps_def stepsSectionMatch_None
      extractGoalTitle_def extractDescription_def listOnly_goalMatch listOnly_descriptionMatch
      listOnly_stepLines defaultSteps_def)

text \<open>
  Claim C8. Both extractors return a plan for every text (they are total functions: each
  loop of the patterns is a terminating recursion), the plan has at least one step, and
  when no step was extracted the steps are exactly the default step
  \<open>Start working on your goal\<close>. On \<open>random text with no structure\<close> both return the
  title \<open>New Goal\<close>, no description and the default step.
\<close>

theorem extract_default_step:
  "steps (extractPlanFromText text) \<noteq> []
   \<and> steps (extractPlanFromText_fallback text) \<noteq> []
   \<and> (extractedSteps text = [] \<longrightarrow>
        steps (extractPlanFromText text) = [\<lparr>ps_title = ''Start working on your goal''\<rparr>])
   \<and> (extractedSteps_fallback text = [] \<longrightarrow>
        steps (extractPlanFromText_fallback text) = [\<lparr>ps_title = ''Start working on your goal''\<rparr>])
   \<and> extractPlanFromText randomText =
        \<lparr>goalTitle = ''New Goal'', description = None,
         steps = [\<lparr>ps_title = ''Start working on your goal''\<rparr>]\<rparr>
   \<and> extractPlanFromText_fallback randomText =
        \<lparr>goalTitle = ''New Goal'', description = None,
         steps = [\<lparr>ps_title = ''Start working on your goal''\<rparr>]\<rparr>"
proof -
  have r1: "extractedSteps randomText = []"
    using random_no_label by (simp add: extractedSteps_def stepsSectionMatch_None)
  have r2: "extractedSteps_fallback randomText = []"
    using random_no_label
    by (simp add: extractedSteps_fallback_def stepsMatch_None listItems_labelledSteps
        random_labelledSteps)
  show ?thesis
    by (simp add: extractPlanFromText_def extractPlanFromText_fallback_def defaultSteps_def
        r1 r2 extractGoalTitle_def extractDescription_def random_goalMatch
        random_descriptionMatch)
qed

theorem extract_default_step_witness:
  "extractedSteps randomText = [] \<and> extractedSteps_fallback randomText = []
   \<and> steps (extractPlanFromText randomText) = [\<lparr>ps_title = ''Start working on your goal''\<rparr>]
   \<and> steps (extractPlanFromText_fallback randomText) =
       [\<lparr>ps_title = ''Start working on your goal''\<rparr>]"
proof -
  have r1: "extractedSteps randomText = []"
    using random_no_label by (simp add: extractedSteps_def stepsSectionMatch_None)
  have r2: "extractedSteps_fallback randomText = []"
    using random_no_label
    by (simp add: extractedSteps_fallback_def stepsMatch_None listItems_labelledSteps
        random_labelledSteps)
  from extract_default_step [of randomText] r1 r2 show ?thesis by simp
qed


section \<open>Properties of \<open>trim\<close>\<close>

lemma trim_front: "dropWhile isWhiteSpace (trim s) = trim s"
proof -
  define u where "u = dropWhile isWhiteSpace s"
  define w where "w = dropWhile isWhiteSpace (rev u)"
  have t: "trim s = rev w" by (simp add: trim_def u_def w_def)
  show ?thesis
  proof (cases "w = []")
    case True
    with t show ?thesis by simp
  next
    case False
    then have "rev u \<noteq> []" by (auto simp: w_def)
    then have un: "u \<noteq> []" by simp
    have "w = drop (length (takeWhile isWhiteSpace (rev u))) (rev u)"
      unfolding w_def by (rule dropWhile_eq_drop)
    moreover from False have "length (takeWhile isWhiteSpace (rev u)) < length (rev u)"
      using calculation by (metis drop_eq_Nil not_le)
    ultimately have "last w = last (rev u)" by (simp add: last_drop)
    then have "last w = hd u" using un by (simp add: last_rev)
    moreover have "\<not> isWhiteSpace (hd u)"
      using un unfolding u_def by (rule hd_dropWhile)
    ultimately have "\<not> isWhiteSpace (hd (rev w))" using False by (simp add: hd_rev)
    then show ?thesis unfolding t by (cases "rev w") auto
  qed
qed

lemma trim_back: "dropWhile isWhiteSpace (rev (trim s)) = rev (trim s)"
  by (simp add: trim_def)

lemma trim_idem: "trim (trim s) = trim s"
proof -
  have "trim (trim s) = rev (dropWhile isWhiteSpace (rev (dropWhile isWhiteSpace (trim s))))"
    by (simp add: trim_def)
  also have "\<dots> = rev (dropWhile isWhiteSpace (rev (trim s)))" by (simp only: trim_front)
  also have "\<dots> = rev (rev (trim s))" by (simp only: trim_back)
  finally show ?thesis by simp
qed


section \<open>What \<open>createGoalWithSteps\<close> persists\<close>

lemma enumerate_twice:
  "map (\<lambda>(i, r). g i r) (enumerate 0 (map (\<lambda>(index, x). f index x) (enumerate 0 xs))) =
   map (\<lambda>(i, x). g i (f i x)) (enumerate 0 xs)"
  by (rule nth_equalityI) (simp_all add: nth_enumerate_eq)

lemma insertGoal_cases:
  "(\<exists>m. insertGoal row d = Inl (DriverError m))
   \<or> insertGoal row d =
       Inr (row\<lparr>goal_id := nextUuid d\<rparr>,
            d\<lparr>goalTable := goalTable d @ [row\<lparr>goal_id := nextUuid d\<rparr>], nextUuid := Suc (nextUuid d)\<rparr>)"
  by (simp add: insertGoal_def Let_def)

lemma insertSteps_cases:
  "(\<exists>m. insertSteps rows d = Inl (DriverError m))
   \<or> insertSteps rows d =
       Inr (map (\<lambda>(i, r). r\<lparr>step_id := nextUuid d + i\<rparr>) (enumerate 0 rows),
            d\<lparr>stepTable := stepTable d @ map (\<lambda>(i, r). r\<lparr>step_id := nextUuid d + i\<rparr>) (enumerate 0 rows),
              nextUuid := nextUuid d + length rows\<rparr>)"
  by (simp add: insertSteps_def Let_def)

lemma indexedSteps_ids:
  "map (\<lambda>(i, r). r\<lparr>step_id := Suc (nextUuid d + i)\<rparr>) (enumerate 0 (indexedSteps (nextUuid d) now stepsData))
   = persistedSteps stepsData now d"
  unfolding indexedSteps_def persistedSteps_def
  by (simp add: enumerate_twice stepRow_def)

lemma length_indexedSteps: "length (indexedSteps g now stepsData) = length stepsData"
  by (simp add: indexedSteps_def)

lemma createGoalWithSteps_cases:
  "(\<exists>m. createGoalWithSteps a stepsData fault now d =
          (Inl (ChatSDKError ''bad_request:database'' (''Failed to create goal with steps: '' @ m)), d))
   \<or> createGoalWithSteps a stepsData fault now d =
        (Inr (persistedGoal a now d, persistedSteps stepsData now d),
         d\<lparr>goalTable := goalTable d @ [persistedGoal a now d],
           stepTable := stepTable d @ persistedSteps stepsData now d,
           nextUuid := Suc (nextUuid d) + length stepsData\<rparr>)"
proof (cases "fault 0")
  case (Some m)
  then show ?thesis
    by (simp add: createGoalWithSteps_def transaction_def createGoalWithStepsBody_def)
next
  case None
  note f0 = this
  from insertGoal_cases [of "goalRow a now" d] show ?thesis
  proof
    assume "\<exists>m. insertGoal (goalRow a now) d = Inl (DriverError m)"
    with f0 show ?thesis
      by (auto simp: createGoalWithSteps_def transaction_def createGoalWithStepsBody_def)
  next
    define tx1 where "tx1 = d\<lparr>goalTable := goalTable d @ [persistedGoal a now d], nextUuid := Suc (nextUuid d)\<rparr>"
    assume "insertGoal (goalRow a now) d =
       Inr ((goalRow a now)\<lparr>goal_id := nextUuid d\<rparr>,
            d\<lparr>goalTable := goalTable d @ [(goalRow a now)\<lparr>goal_id := nextUuid d\<rparr>], nextUuid := Suc (nextUuid d)\<rparr>)"
    then have ig: "insertGoal (goalRow a now) d = Inr (persistedGoal a now d, tx1)"
      by (simp add: persistedGoal_def tx1_def)
    have gid: "goal_id (persistedGoal a now d) = nextUuid d" by (simp add: persistedGoal_def)
    show ?thesis
    proof (cases "fault 1")
      case (Some m)
      with f0 ig show ?thesis
        by (simp add: createGoalWithSteps_def transaction_def createGoalWithStepsBody_def)
    next
      case None
      note f1 = this
      from insertSteps_cases [of "indexedSteps (nextUuid d) now stepsData" tx1] show ?thesis
      proof
        assume "\<exists>m. insertSteps (indexedSteps (nextUuid d) now stepsData) tx1 = Inl (DriverError m)"
        with f0 f1 ig gid show ?thesis
          by (auto simp: createGoalWithSteps_def transaction_def createGoalWithStepsBody_def)
      next
        assume "insertSteps (indexedSteps (nextUuid d) now stepsData) tx1 =
          Inr (map (\<lambda>(i, r). r\<lparr>step_id := nextUuid tx1 + i\<rparr>) (enumerate 0 (indexedSteps (nextUuid d) now stepsData)),
            tx1\<lparr>stepTable := stepTable tx1 @ map (\<lambda>(i, r). r\<lparr>step_id := nextUuid tx1 + i\<rparr>) (enumerate 0 (indexedSteps (nextUuid d) now stepsData)),
              nextUuid := nextUuid tx1 + length (indexedSteps (nextUuid d) now stepsData)\<rparr>)"
        then have "insertSteps (indexedSteps (nextUuid d) now stepsData) tx1 =
          Inr (persistedSteps stepsData now d,
               tx1\<lparr>stepTable := stepTable tx1 @ persistedSteps stepsData now d,
                  nextUuid := Suc (nextUuid d) + length stepsData\<rparr>)"
          by (simp add: tx1_def indexedSteps_ids length_indexedSteps)
        with f0 f1 ig gid show ?thesis
          by (simp add: createGoalWithSteps_def transaction_def createGoalWithStepsBody_def tx1_def)
      qed
    qed
  qed
qed

lemma createGoalWithSteps_rollback:
  assumes "fault 0 = None" and "fault 1 = Some m"
  shows "snd (createGoalWithSteps a stepsData fault now d) = d"
  using assms
  by (simp add: createGoalWithSteps_def transaction_def createGoalWithStepsBody_def
      split: sum.splits prod.splits)


section \<open>Theorems about the store\<close>

text \<open>
  Claim C5. \<open>createSteps\<close> validates nothing. With a goal that exists and a title of
  three spaces it inserts the step and returns it, where \<open>createStep\<close> answers
  \<open>bad_request:goal\<close>; with a goal that does not exist the insert fails on the foreign
  key and the operation answers \<open>bad_request:database\<close> (nothing is inserted), where
  \<open>createStep\<close> answers \<open>not_found:goal\<close>.
\<close>

theorem createSteps_unvalidated:
  "createSteps 10 [\<lparr>sd_title = ''   '', sd_order = None\<rparr>] 200 goalDb =
     (Inr [\<lparr>step_id = 11, step_goalId = 10, step_title = ''   '', step_isCompleted = False,
            step_order = 0, step_completedAt = None, step_createdAt = 200\<rparr>],
      goalDb\<lparr>stepTable :=
               [\<lparr>step_id = 11, step_goalId = 10, step_title = ''   '', step_isCompleted = False,
                 step_order = 0, step_completedAt = None, step_createdAt = 200\<rparr>],
             nextUuid := 12\<rparr>)
   \<and> createStep 10 ''   '' None 200 goalDb =
       (Inl (ChatSDKError ''bad_request:goal'' ''Step title cannot be empty''), goalDb)
   \<and> createSteps 99 [\<lparr>sd_title = ''Practice daily'', sd_order = None\<rparr>] 200 goalDb =
       (Inl (ChatSDKError ''bad_request:database'' ''Failed to create steps''), goalDb)
   \<and> createStep 99 ''Practice daily'' None 200 goalDb =
       (Inl (ChatSDKError ''not_found:goal'' ''Goal not found''), goalDb)"
  by code_simp




text \<open>
  Claim C7. \<open>createGoalWithSteps\<close> either returns the goal and all the steps it was given
  and has appended exactly these rows to the two tables, each step with the title of its
  entry, the order of its entry when it has one and else its index in the list, counted
  from zero, and the identifier of the new goal; or it throws one \<open>ChatSDKError\<close> with
  the code \<open>bad_request:database\<close>, whose message wraps the message of the failure, and
  leaves the store as it was. The latter is what happens whenever the insert of the steps
  fails, also after the goal was inserted.
\<close>

theorem createGoalWithSteps_all_or_nothing:
  "((createGoalWithSteps a stepsData fault now d =
       (Inr (persistedGoal a now d, persistedSteps stepsData now d),
        d\<lparr>goalTable := goalTable d @ [persistedGoal a now d],
          stepTable := stepTable d @ persistedSteps stepsData now d,
          nextUuid := Suc (nextUuid d) + length stepsData\<rparr>)
     \<and> length (persistedSteps stepsData now d) = length stepsData
     \<and> (\<forall>i < length stepsData.
          step_title (persistedSteps stepsData now d ! i) = sd_title (stepsData ! i)
          \<and> step_order (persistedSteps stepsData now d ! i) =
              (case sd_order (stepsData ! i) of Some v \<Rightarrow> v | None \<Rightarrow> int i)
          \<and> step_goalId (persistedSteps stepsData now d ! i) = goal_id (persistedGoal a now d)))
    \<or> (\<exists>m. createGoalWithSteps a stepsData fault now d =
          (Inl (ChatSDKError ''bad_request:database'' (''Failed to create goal with steps: '' @ m)),
           d)))
   \<and> (fault 1 \<noteq> None \<longrightarrow>
        (\<exists>m. createGoalWithSteps a stepsData fault now d =
          (Inl (ChatSDKError ''bad_request:database'' (''Failed to create goal with steps: '' @ m)),
           d)))"
proof -
  have props: "length (persistedSteps stepsData now d) = length stepsData
     \<and> (\<forall>i < length stepsData.
          step_title (persistedSteps stepsData now d ! i) = sd_title (stepsData ! i)
          \<and> step_order (persistedSteps stepsData now d ! i) =
              (case sd_order (stepsData ! i) of Some v \<Rightarrow> v | None \<Rightarrow> int i)
          \<and> step_goalId (persistedSteps stepsData now d ! i) = goal_id (persistedGoal a now d))"
    by (simp add: persistedSteps_def persistedGoal_def nth_enumerate_eq)
  have fail: "\<exists>m. createGoalWithSteps a stepsData fault now d =
          (Inl (ChatSDKError ''bad_request:database'' (''Failed to create goal with steps: '' @ m)),
           d)" if "fault 1 \<noteq> None"
    using that
    by (auto simp: createGoalWithSteps_def transaction_def createGoalWithStepsBody_def
        split: sum.splits prod.splits option.splits)
  from createGoalWithSteps_cases [of a stepsData fault now d] props fail
  show ?thesis by blast
qed

theorem createGoalWithSteps_all_or_nothing_witness:
  "createGoalWithSteps sampleInput sampleSteps noFault 100 sampleDb =
     (Inr (sampleGoal,
           [\<lparr>step_id = 11, step_goalId = 10, step_title = ''Buy a guitar'', step_isCompleted = False,
             step_order = 0, step_completedAt = None, step_createdAt = 100\<rparr>,
            \<lparr>step_id = 12, step_goalId = 10, step_title = ''Practice daily'', step_isCompleted = False,
             step_order = 5, step_completedAt = None, step_createdAt = 100\<rparr>,
            \<lparr>step_id = 13, step_goalId = 10, step_title = ''Play a song'', step_isCompleted = False,
             step_order = 2, step_completedAt = None, step_createdAt = 100\<rparr>]),
      sampleDb\<lparr>goalTable := [sampleGoal],
        stepTable :=
          [\<lparr>step_id = 11, step_goalId = 10, step_title = ''Buy a guitar'', step_isCompleted = False,
            step_order = 0, step_completedAt = None, step_createdAt = 100\<rparr>,
           \<lparr>step_id = 12, step_goalId = 10, step_title = ''Practice daily'', step_isCompleted = False,
            step_order = 5, step_completedAt = None, step_createdAt = 100\<rparr>,
           \<lparr>step_id = 13, step_goalId = 10, step_title = ''Play a song'', step_isCompleted = False,
            step_order = 2, step_completedAt = None, step_createdAt = 100\<rparr>],
        nextUuid := 14\<rparr>)
   \<and> secondFails 1 \<noteq> None
   \<and> createGoalWithSteps sampleInput sampleSteps secondFails 100 sampleDb =
       (Inl (ChatSDKError ''bad_request:database''
               ''Failed to create goal with steps: connection lost''), sampleDb)"
proof -
  define ss where "ss =
          [\<lparr>step_id = 11, step_goalId = 10, step_title = ''Buy a guitar'', step_isCompleted = False,
            step_order = 0, step_completedAt = None, step_createdAt = 100\<rparr>,
           \<lparr>step_id = 12, step_goalId = 10, step_title = ''Practice daily'', step_isCompleted = False,
            step_order = 5, step_completedAt = None, step_createdAt = 100\<rparr>,
           \<lparr>step_id = 13, step_goalId = 10, step_title = ''Play a song'', step_isCompleted = False,
            step_order = 2, step_completedAt = None, step_createdAt = 100\<rparr>]"
  have body1: "createGoalWithStepsBody sampleInput sampleSteps noFault 100 sampleDb =
      (Inr (sampleGoal, ss),
       sampleDb\<lparr>goalTable := [sampleGoal], stepTable := ss, nextUuid := 14\<rparr>)"
    unfolding ss_def by code_simp
  have ok: "createGoalWithSteps sampleInput sampleSteps noFault 100 sampleDb \<noteq>
     (Inl (ChatSDKError ''bad_request:database'' (''Failed to create goal with steps: '' @ m)),
           sampleDb)" for m
    by (simp add: createGoalWithSteps_def transaction_def body1)
  have g: "persistedGoal sampleInput 100 sampleDb = sampleGoal"
    by code_simp
  have s: "persistedSteps sampleSteps 100 sampleDb = ss"
    unfolding ss_def by code_simp
  have d: "sampleDb\<lparr>goalTable := goalTable sampleDb @ [sampleGoal],
             stepTable := stepTable sampleDb @ ss,
             nextUuid := Suc (nextUuid sampleDb) + length sampleSteps\<rparr> =
           sampleDb\<lparr>goalTable := [sampleGoal], stepTable := ss, nextUuid := 14\<rparr>"
    by (simp add: sampleDb_def sampleSteps_def)
  have f: "secondFails 1 \<noteq> None" by (simp add: secondFails_def)
  have body2: "createGoalWithStepsBody sampleInput sampleSteps secondFails 100 sampleDb =
      (Inl (DriverError ''connection lost''),
       sampleDb\<lparr>goalTable := [sampleGoal], nextUuid := 11\<rparr>)"
    by code_simp
  have msg: "createGoalWithSteps sampleInput sampleSteps secondFails 100 sampleDb =
       (Inl (ChatSDKError ''bad_request:database'' (''Failed to create goal with steps: '' @ m)),
        sampleDb) \<Longrightarrow> m = ''connection lost''" for m
    by (simp add: createGoalWithSteps_def transaction_def body2)
  note T1 = createGoalWithSteps_all_or_nothing [of sampleInput sampleSteps noFault 100 sampleDb]
  note T2 = createGoalWithSteps_all_or_nothing [of sampleInput sampleSteps secondFails 100 sampleDb]
  from T1 ok have "createGoalWithSteps sampleInput sampleSteps noFault 100 sampleDb =
       (Inr (persistedGoal sampleInput 100 sampleDb, persistedSteps sampleSteps 100 sampleDb),
        sampleDb\<lparr>goalTable := goalTable sampleDb @ [persistedGoal sampleInput 100 sampleDb],
          stepTable := stepTable sampleDb @ persistedSteps sampleSteps 100 sampleDb,
          nextUuid := Suc (nextUuid sampleDb) + length sampleSteps\<rparr>)"
    by blast
  then have r1: "createGoalWithSteps sampleInput sampleSteps noFault 100 sampleDb =
      (Inr (sampleGoal, ss),
       sampleDb\<lparr>goalTable := [sampleGoal], stepTable := ss, nextUuid := 14\<rparr>)"
    by (simp only: g s d)
  from T2 f obtain m where r2: "createGoalWithSteps sampleInput sampleSteps secondFails 100 sampleDb =
          (Inl (ChatSDKError ''bad_request:database'' (''Failed to create goal with steps: '' @ m)),
           sampleDb)"
    by blast
  from msg [OF r2] r2 have r2': "createGoalWithSteps sampleInput sampleSteps secondFails 100 sampleDb =
       (Inl (ChatSDKError ''bad_request:database''
               ''Failed to create goal with steps: connection lost''), sampleDb)"
    by simp
  from r1 f r2' show ?thesis unfolding ss_def by blast
qed

text \<open>
  Claim C10, as the code has it. For an identifier that is the text of a \<open>uuid\<close> which no
  step has, \<open>deleteStep\<close> writes nothing; when the storage answers the select, it throws
  nothing and returns \<open>null\<close>, and \<open>deleteStepAction\<close>, called by a signed-in user, returns
  \<open>{success: true}\<close> with the store unchanged. For an identifier that is not the text of a
  \<open>uuid\<close> the select fails: \<open>deleteStep\<close> throws \<open>bad_request:database\<close>, which
  \<open>deleteStepAction\<close> throws on, and the store is unchanged as well.
\<close>

theorem deleteStep_missing:
  assumes "u \<notin> set (map step_id (stepTable d))"
  shows "snd (deleteStep (UuidText u) fault tie d) = d
    \<and> (fault 0 = None \<longrightarrow>
         deleteStep (UuidText u) fault tie d = (Inr None, d)
         \<and> deleteStepAction (Some user) (UuidText u) fault tie d = (Inr Success, d))
    \<and> deleteStep (MalformedText t) fault tie d =
        (Inl (ChatSDKError ''bad_request:database'' ''Failed to delete step''), d)
    \<and> deleteStepAction (Some user) (MalformedText t) fault tie d =
        (Inl (ChatSDKError ''bad_request:database'' ''Failed to delete step''), d)"
proof -
  from assms have sel: "selectStepById (UuidText u) d = Inr None"
    by (auto simp: selectStepById_def find_None_iff)
  have mal: "selectStepById (MalformedText t) d = Inl (DriverError ''invalid input syntax for type uuid'')"
    by (simp add: selectStepById_def)
  have b1: "deleteStepBody (UuidText u) fault tie d =
      (case fault 0 of Some m \<Rightarrow> (Inl (DriverError m), d) | None \<Rightarrow> (Inr None, d))"
    by (simp add: deleteStepBody_def sel split: option.splits)
  have b2: "fst (deleteStepBody (MalformedText t) fault tie d) = Inl (case fault 0 of Some m \<Rightarrow> DriverError m
      | None \<Rightarrow> DriverError ''invalid input syntax for type uuid'')"
    by (simp add: deleteStepBody_def mal split: option.splits)
  have c1: "snd (deleteStep (UuidText u) fault tie d) = d"
    by (simp add: deleteStep_def transaction_def b1 split: option.splits)
  have c2: "deleteStep (UuidText u) fault tie d = (Inr None, d)" if "fault 0 = None"
    using that by (simp add: deleteStep_def transaction_def b1)
  have c3: "deleteStep (MalformedText t) fault tie d =
        (Inl (ChatSDKError ''bad_request:database'' ''Failed to delete step''), d)"
    using b2 by (cases "deleteStepBody (MalformedText t) fault tie d")
      (simp add: deleteStep_def transaction_def)
  from c1 c2 c3 show ?thesis by (simp add: deleteStepAction_def)
qed

theorem deleteStep_missing_witness:
  "99 \<notin> set (map step_id (stepTable stepsDb))
   \<and> map step_id (stepTable stepsDb) = [11, 21, 12, 13, 14]
   \<and> noFault 0 = None
   \<and> deleteStep (UuidText 99) noFault oldestFirst stepsDb = (Inr None, stepsDb)
   \<and> deleteStepAction (Some 2) (UuidText 99) noFault oldestFirst stepsDb = (Inr Success, stepsDb)
   \<and> snd (deleteStep (UuidText 99) secondFails oldestFirst stepsDb) = stepsDb"
proof -
  have ids: "map step_id (stepTable stepsDb) = [11, 21, 12, 13, 14]"
    by (simp add: stepsDb_def sampleDb_def)
  then have h: "99 \<notin> set (map step_id (stepTable stepsDb))" by simp
  have f: "noFault 0 = None" by (simp add: noFault_def)
  note T = deleteStep_missing [OF h, of noFault oldestFirst 2 "''x''"]
  note T' = deleteStep_missing [OF h, of secondFails oldestFirst 2 "''x''"]
  from T f have a: "deleteStep (UuidText 99) noFault oldestFirst stepsDb = (Inr None, stepsDb)"
    by blast
  from T f have b: "deleteStepAction (Some 2) (UuidText 99) noFault oldestFirst stepsDb = (Inr Success, stepsDb)"
    by blast
  from T' have c: "snd (deleteStep (UuidText 99) secondFails oldestFirst stepsDb) = stepsDb"
    by blast
  from h ids f a b c show ?thesis by blast
qed

text \<open>The claim as it is written fails for an identifier that is not the text of a
  \<open>uuid\<close>: it matches no step, and \<open>deleteStep\<close> throws instead of returning \<open>null\<close>, so
  \<open>deleteStepAction\<close> throws as well.\<close>

theorem deleteStep_malformed_counterexample:
  "deleteStep (MalformedText ''step-1'') noFault oldestFirst stepsDb =
     (Inl (ChatSDKError ''bad_request:database'' ''Failed to delete step''), stepsDb)
   \<and> deleteStepAction (Some 2) (MalformedText ''step-1'') noFault oldestFirst stepsDb =
       (Inl (ChatSDKError ''bad_request:database'' ''Failed to delete step''), stepsDb)"
  by (simp add: deleteStepAction_def deleteStep_def transaction_def deleteStepBody_def
      selectStepById_def noFault_def)

section \<open>The completion timestamp\<close>

lemma stepsConsistent_same: "stepTable d' = stepTable d \<Longrightarrow> stepsConsistent d' = stepsConsistent d"
  by (simp add: stepsConsistent_def)

lemma stepsConsistent_filter:
  "stepsConsistent d \<Longrightarrow> stepsConsistent (d\<lparr>stepTable := filter P (stepTable d)\<rparr>)"
  by (simp add: stepsConsistent_def)

lemma insertSteps_consistent:
  assumes "stepsConsistent d"
    and "\<forall>r \<in> set rows. \<not> step_isCompleted r \<and> step_completedAt r = None"
    and "insertSteps rows d = Inr (created, d')"
  shows "stepsConsistent d'"
proof -
  from assms(3) insertSteps_cases [of rows d]
  have "stepTable d' = stepTable d @ map (\<lambda>(i, r). r\<lparr>step_id := nextUuid d + i\<rparr>) (enumerate 0 rows)"
    by auto
  moreover have "completionConsistent s"
    if "s \<in> set (map (\<lambda>(i, r). r\<lparr>step_id := nextUuid d + i\<rparr>) (enumerate 0 rows))" for s
  proof -
    from that obtain i r where "(i, r) \<in> set (enumerate 0 rows)" "s = r\<lparr>step_id := nextUuid d + i\<rparr>"
      by auto
    moreover from this have "r \<in> set rows" by (auto simp: in_set_enumerate_eq)
    ultimately show ?thesis using assms(2) by (simp add: completionConsistent_def)
  qed
  ultimately show ?thesis using assms(1) by (auto simp: stepsConsistent_def)
qed

lemma stepRow_fresh: "\<not> step_isCompleted (stepRow g t ord now) \<and> step_completedAt (stepRow g t ord now) = None"
  by (simp add: stepRow_def)

lemma stepsToInsert_fresh:
  "\<forall>r \<in> set (stepsToInsert g now k stepsData). \<not> step_isCompleted r \<and> step_completedAt r = None"
  by (induction stepsData arbitrary: k) (auto simp: stepRow_def split: option.splits)

lemma indexedSteps_fresh:
  "\<forall>r \<in> set (indexedSteps g now stepsData). \<not> step_isCompleted r \<and> step_completedAt r = None"
  by (auto simp: indexedSteps_def stepRow_def)

lemma updateStepWhereId_consistent:
  assumes "stepsConsistent d" and "\<And>s. completionConsistent s \<Longrightarrow> completionConsistent (f s)"
  shows "stepsConsistent (updateStepWhereId i f d)"
  using assms by (auto simp: stepsConsistent_def updateStepWhereId_def)

text \<open>The write of \<open>updateData\<close> keeps the property when the storage reads the value of
  \<open>isCompleted\<close> as the boolean that its truthiness is.\<close>

lemma setStepWhereId_consistent:
  assumes "stepsConsistent d"
    and "\<forall>v. isCompleted = Some v \<longrightarrow> readAsTruthy v"
    and "setStepWhereId i (buildUpdateData title isCompleted ord now) d = Inr d'"
  shows "stepsConsistent d'"
proof (cases isCompleted)
  case None
  with assms(3) have "d' = updateStepWhereId i (writeStep (buildUpdateData title None ord now) None) d"
    by (simp add: setStepWhereId_def buildUpdateData_def split: if_splits)
  moreover have "completionConsistent (writeStep (buildUpdateData title None ord now) None s)"
    if "completionConsistent s" for s
    using that by (simp add: completionConsistent_def writeStep_def buildUpdateData_def)
  ultimately show ?thesis using assms(1) by (simp add: updateStepWhereId_consistent)
next
  case (Some v)
  with assms(2) have r: "readAsTruthy v" by simp
  from assms(3) Some obtain b where b: "pgBoolean v = Some b"
    and d': "d' = updateStepWhereId i (writeStep (buildUpdateData title (Some v) ord now) (Some b)) d"
    by (auto simp: setStepWhereId_def buildUpdateData_def split: if_splits option.splits)
  from r b have "b = truthy v" by (simp add: readAsTruthy_def)
  then have "completionConsistent (writeStep (buildUpdateData title (Some v) ord now) (Some b) s)" for s
    by (simp add: completionConsistent_def writeStep_def buildUpdateData_def)
  with d' show ?thesis using assms(1) by (simp add: updateStepWhereId_consistent)
qed

lemma renumber_consistent:
  "stepsConsistent tx \<Longrightarrow> stepsConsistent (snd (renumber fault k rs tx))"
proof (induction rs arbitrary: k tx)
  case Nil
  then show ?case by simp
next
  case (Cons r rs)
  have "stepsConsistent (updateStepWhereId (step_id r) (\<lambda>s. s\<lparr>step_order := int k\<rparr>) tx)"
    using Cons.prems by (rule updateStepWhereId_consistent) (simp add: completionConsistent_def)
  then show ?case using Cons.prems by (simp add: Cons.IH split: option.splits)
qed

lemma transaction_consistent:
  assumes "stepsConsistent d" and "stepsConsistent (snd (body d))"
  shows "stepsConsistent (snd (transaction body d))"
  using assms by (auto simp: transaction_def split: prod.splits sum.splits)

lemma reorderLoop_consistent:
  "stepsConsistent tx \<Longrightarrow> stepsConsistent (snd (reorderLoop goalId stepOrders tx))"
proof (induction stepOrders arbitrary: tx)
  case Nil
  then show ?case by simp
next
  case (Cons p rest)
  obtain stepId newOrder where p: "p = (stepId, newOrder)" by (cases p)
  have "stepsConsistent (updateStepWhereId stepId (\<lambda>s. s\<lparr>step_order := newOrder\<rparr>) tx)"
    using Cons.prems by (rule updateStepWhereId_consistent) (simp add: completionConsistent_def)
  then show ?case using Cons.prems Cons.IH by (simp add: p split: option.splits)
qed

lemma bulkUpdateLoop_consistent:
  assumes "stepsConsistent tx"
    and "\<forall>p \<in> set updates. \<forall>v. su_isCompleted (snd p) = Some v \<longrightarrow> readAsTruthy v"
  shows "stepsConsistent (snd (bulkUpdateLoop goalId updates now tx))"
  using assms
proof (induction updates arbitrary: tx)
  case Nil
  then show ?case by simp
next
  case (Cons p rest)
  obtain stepId u where p: "p = (stepId, u)" by (cases p)
  from Cons.prems(2) p have u: "\<forall>v. su_isCompleted u = Some v \<longrightarrow> readAsTruthy v"
    and rest: "\<forall>p \<in> set rest. \<forall>v. su_isCompleted (snd p) = Some v \<longrightarrow> readAsTruthy v"
    by simp_all
  show ?case
  proof (cases "setStepWhereId stepId (buildUpdateData (su_title u) (su_isCompleted u) (su_order u) now) tx")
    case (Inl e)
    with Cons.prems(1) show ?thesis by (simp add: p split: option.splits)
  next
    case (Inr tx')
    from Cons.prems(1) u Inr have "stepsConsistent tx'" by (rule setStepWhereId_consistent)
    then have "stepsConsistent (snd (bulkUpdateLoop goalId rest now tx'))"
      using rest by (rule Cons.IH)
    with Cons.prems(1) Inr show ?thesis by (simp add: p split: option.splits)
  qed
qed

lemma createGoal_consistent: "stepsConsistent d \<Longrightarrow> stepsConsistent (snd (createGoal a now d))"
  using insertGoal_cases [of "goalRow a now" d]
  by (auto simp: createGoal_def stepsConsistent_def split: if_splits)

lemma updateGoal_consistent: "stepsConsistent d \<Longrightarrow> stepsConsistent (snd (updateGoal i u d))"
  by (auto simp: updateGoal_def stepsConsistent_def split: option.splits if_splits)

lemma deleteGoal_consistent: "stepsConsistent d \<Longrightarrow> stepsConsistent (snd (deleteGoal i d))"
  by (auto simp: deleteGoal_def stepsConsistent_def)

lemma createStep_consistent:
  assumes "stepsConsistent d"
  shows "stepsConsistent (snd (createStep goalId title providedOrder now d))"
proof (cases "insertSteps [stepRow goalId title
          (case providedOrder of Some v \<Rightarrow> v | None \<Rightarrow> maxOrder goalId d + 1) now] d")
  case (Inl e)
  with assms show ?thesis
    by (simp add: createStep_def Let_def split: option.splits)
next
  case (Inr p)
  obtain created d' where p: "p = (created, d')" by (cases p)
  from assms _ Inr [unfolded p] have "stepsConsistent d'"
    by (rule insertSteps_consistent) (simp add: stepRow_def)
  with assms Inr p show ?thesis
    by (simp add: createStep_def Let_def split: option.splits)
qed

lemma createSteps_consistent:
  assumes "stepsConsistent d"
  shows "stepsConsistent (snd (createSteps goalId stepsData now d))"
proof (cases "insertSteps (stepsToInsert goalId now (maxOrder goalId d + 1) stepsData) d")
  case (Inl e)
  with assms show ?thesis by (simp add: createSteps_def)
next
  case (Inr p)
  obtain created d' where p: "p = (created, d')" by (cases p)
  from assms stepsToInsert_fresh Inr [unfolded p] have "stepsConsistent d'"
    by (rule insertSteps_consistent)
  with Inr p show ?thesis by (simp add: createSteps_def)
qed

lemma updateStep_consistent:
  assumes "stepsConsistent d" and "\<forall>v. isCompleted = Some v \<longrightarrow> readAsTruthy v"
  shows "stepsConsistent (snd (updateStep i title isCompleted now d))"
proof (cases "selectStepById i d")
  case (Inl e)
  with assms(1) show ?thesis by (simp add: updateStep_def)
next
  case (Inr found)
  show ?thesis
  proof (cases found)
    case None
    with Inr assms(1) show ?thesis by (simp add: updateStep_def)
  next
    case (Some existingStep)
    show ?thesis
    proof (cases "setStepWhereId (step_id existingStep) (buildUpdateData title isCompleted None now) d")
      case (Inl e)
      with Inr Some assms(1) show ?thesis by (simp add: updateStep_def)
    next
      case r: (Inr d')
      from assms r have "stepsConsistent d'" by (rule setStepWhereId_consistent)
      with Inr Some r assms(1) show ?thesis by (simp add: updateStep_def)
    qed
  qed
qed

lemma toggleStepCompletion_consistent:
  "stepsConsistent d \<Longrightarrow> stepsConsistent (snd (toggleStepCompletion i now d))"
  by (auto simp: toggleStepCompletion_def Let_def completionConsistent_def
      intro!: updateStepWhereId_consistent split: option.splits sum.splits)

lemma deleteStepBody_consistent:
  assumes "stepsConsistent d"
  shows "stepsConsistent (snd (deleteStepBody i fault tie d))"
proof -
  have "stepsConsistent (snd (renumber fault 0 rs (d\<lparr>stepTable := filter P (stepTable d)\<rparr>)))" for rs P
    using assms by (intro renumber_consistent stepsConsistent_filter)
  then have r: "stepsConsistent tx2"
    if "renumber fault 0 rs (d\<lparr>stepTable := filter P (stepTable d)\<rparr>) = (x, tx2)" for rs P x tx2
    using that by (metis snd_conv)
  from assms show ?thesis
    by (auto simp: deleteStepBody_def Let_def stepsConsistent_filter
        split: option.splits sum.splits prod.splits dest: r)
qed

lemma deleteStep_consistent:
  assumes "stepsConsistent d"
  shows "stepsConsistent (snd (deleteStep i fault tie d))"
proof -
  from assms have "stepsConsistent (snd (deleteStepBody i fault tie d))"
    by (rule deleteStepBody_consistent)
  with assms have "stepsConsistent (snd (transaction (deleteStepBody i fault tie) d))"
    by (rule transaction_consistent)
  then show ?thesis by (auto simp: deleteStep_def split: prod.splits sum.splits)
qed

lemma createGoalWithSteps_consistent:
  assumes "stepsConsistent d"
  shows "stepsConsistent (snd (createGoalWithSteps a stepsData fault now d))"
proof -
  have "\<forall>s \<in> set (persistedSteps stepsData now d). completionConsistent s"
    by (auto simp: persistedSteps_def completionConsistent_def)
  with assms createGoalWithSteps_cases [of a stepsData fault now d] show ?thesis
    by (auto simp: stepsConsistent_def)
qed

lemma reorderSteps_consistent:
  assumes "stepsConsistent d"
  shows "stepsConsistent (snd (reorderSteps goalId stepOrders d))"
proof -
  from assms have "stepsConsistent (snd (reorderLoop goalId stepOrders d))"
    by (rule reorderLoop_consistent)
  with assms have "stepsConsistent (snd (transaction (reorderLoop goalId stepOrders) d))"
    by (rule transaction_consistent)
  then show ?thesis
    by (auto simp: reorderSteps_def split: prod.splits sum.splits error.splits)
qed

lemma bulkUpdateSteps_consistent:
  assumes "stepsConsistent d"
    and "\<forall>p \<in> set updates. \<forall>v. su_isCompleted (snd p) = Some v \<longrightarrow> readAsTruthy v"
  shows "stepsConsistent (snd (bulkUpdateSteps goalId updates now d))"
proof -
  from assms have "stepsConsistent (snd (bulkUpdateLoop goalId updates now d))"
    by (rule bulkUpdateLoop_consistent)
  with assms(1) have "stepsConsistent (snd (transaction (bulkUpdateLoop goalId updates now) d))"
    by (rule transaction_consistent)
  then show ?thesis
    by (auto simp: bulkUpdateSteps_def split: prod.splits sum.splits error.splits)
qed

lemma perform_consistent:
  assumes "stepsConsistent d" and "\<forall>v \<in> set (completionValues op). readAsTruthy v"
  shows "stepsConsistent (perform op d)"
proof (cases op)
  case (UpdateStep i title isCompleted now)
  with assms(2) have "\<forall>v. isCompleted = Some v \<longrightarrow> readAsTruthy v" by simp
  with assms(1) UpdateStep show ?thesis by (simp add: updateStep_consistent)
next
  case (BulkUpdateSteps goalId updates now)
  with assms(2) have "\<forall>p \<in> set updates. \<forall>v. su_isCompleted (snd p) = Some v \<longrightarrow> readAsTruthy v"
    by (fastforce split: prod.splits)
  with assms(1) BulkUpdateSteps show ?thesis by (simp add: bulkUpdateSteps_consistent)
qed (use assms(1) in \<open>simp_all add: createGoal_consistent updateGoal_consistent deleteGoal_consistent
      createStep_consistent createSteps_consistent deleteStep_consistent
      toggleStepCompletion_consistent createGoalWithSteps_consistent reorderSteps_consistent\<close>)

text \<open>
  What the operations do keep: in every store reached from a store without steps by any
  sequence of the operations, whatever their other arguments and whether they return or
  throw, \<open>completedAt\<close> of a step is set if and only if the step is completed, as long as
  every value of \<open>isCompleted\<close> that reaches the storage is refused by it or read as the
  boolean that its truthiness is. Booleans are such values.
\<close>

lemma completion_kept:
  assumes "stepTable d = [] \<or> (\<forall>s \<in> set (stepTable d). (step_completedAt s \<noteq> None) = step_isCompleted s)"
    and "\<forall>op \<in> set ops. \<forall>v \<in> set (completionValues op). readAsTruthy v"
  shows "\<forall>s \<in> set (stepTable (fold perform ops d)).
           (step_completedAt s \<noteq> None) = step_isCompleted s"
proof -
  from assms(1) have "stepsConsistent d"
    by (auto simp: stepsConsistent_def completionConsistent_def)
  then have "stepsConsistent (fold perform ops d)"
    using assms(2) by (induction ops arbitrary: d) (simp_all add: perform_consistent)
  then show ?thesis by (simp add: stepsConsistent_def completionConsistent_def)
qed

lemma readAsTruthy_boolean: "readAsTruthy (JBool b)"
  by (simp add: readAsTruthy_def)

lemma completion_kept_sample:
  "map (\<lambda>s. (step_id s, step_isCompleted s, step_completedAt s))
       (stepTable (fold perform sampleOps sampleDb)) =
     [(11, True, Some 150), (12, False, None), (13, True, Some 190), (14, False, None)]"
  by code_simp

text \<open>
  Claim C1. The property does not hold at every state the step operations reach.
  \<open>updateStep\<close> and \<open>bulkUpdateSteps\<close> write \<open>completedAt\<close> by the truthiness of the value
  of \<open>isCompleted\<close> they are given, and the column \<open>isCompleted\<close> stores what the storage
  reads the value as. With the string \<open>false\<close>, which \<open>PUT /api/step\<close> passes on from a
  body \<open>{"isCompleted": "false"}\<close>, \<open>updateStep\<close> returns, and the step is left not
  completed with \<open>completedAt\<close> set; \<open>bulkUpdateSteps\<close> does the same. With the
  boolean \<open>false\<close> the step is left not completed with \<open>completedAt\<close> null.
\<close>

theorem updateStep_string_false:
  "map (\<lambda>s. (step_id s, step_isCompleted s, step_completedAt s)) (stepTable stepsDb) =
     [(11, False, None), (21, False, None), (12, False, None), (13, True, Some 150), (14, False, None)]
   \<and> fst (updateStep (UuidText 13) None (Some (JString ''false'')) 200 stepsDb) = Inr ()
   \<and> map (\<lambda>s. (step_id s, step_isCompleted s, step_completedAt s))
       (stepTable (snd (updateStep (UuidText 13) None (Some (JString ''false'')) 200 stepsDb))) =
     [(11, False, None), (21, False, None), (12, False, None), (13, False, Some 200), (14, False, None)]
   \<and> map (\<lambda>s. (step_id s, step_isCompleted s, step_completedAt s))
       (stepTable (snd (bulkUpdateSteps 10
          [(12, \<lparr>su_title = None, su_isCompleted = Some (JString ''false''), su_order = None\<rparr>)]
          200 stepsDb))) =
     [(11, False, None), (21, False, None), (12, False, Some 200), (13, True, Some 150), (14, False, None)]
   \<and> map (\<lambda>s. (step_id s, step_isCompleted s, step_completedAt s))
       (stepTable (snd (updateStep (UuidText 13) None (Some (JBool False)) 200 stepsDb))) =
     [(11, False, None), (21, False, None), (12, False, None), (13, False, None), (14, False, None)]"
  by code_simp

section \<open>Renumbering after a deletion\<close>





lemma renumbered_goalId [simp]: "step_goalId (renumbered m s) = step_goalId s"
  by (simp add: renumbered_def split: option.splits)

lemma renumbered_id [simp]: "step_id (renumbered m s) = step_id s"
  by (simp add: renumbered_def split: option.splits)

lemma renumbered_but_order [simp]: "(renumbered m s)\<lparr>step_order := k\<rparr> = s\<lparr>step_order := k\<rparr>"
  by (simp add: renumbered_def split: option.splits)












section \<open>Theorems about the progress\<close>

text \<open>The numbers of \<open>getGoalProgress\<close> do not depend on the sequence in which the query
  returns the steps.\<close>

lemma getGoalProgress_counts:
  "getGoalProgress tie g d =
     \<lparr>pr_completed = length (filter (\<lambda>s. step_goalId s = g \<and> step_isCompleted s) (stepTable d)),
      pr_total = length (filter (\<lambda>s. step_goalId s = g) (stepTable d)),
      pr_percentage =
        (if length (filter (\<lambda>s. step_goalId s = g) (stepTable d)) > 0
         then mathRound (binary64 (binary64
                (of_nat (length (filter (\<lambda>s. step_goalId s = g \<and> step_isCompleted s) (stepTable d)))
                 / of_nat (length (filter (\<lambda>s. step_goalId s = g) (stepTable d)))) * 100))
         else 0)\<rparr>"
proof -
  have total: "length (getStepsByGoalId tie g d) = length (filter (\<lambda>s. step_goalId s = g) (stepTable d))"
    by (simp add: getStepsByGoalId_def)
  have completed: "length (filter step_isCompleted (getStepsByGoalId tie g d)) =
      length (filter (\<lambda>s. step_goalId s = g \<and> step_isCompleted s) (stepTable d))"
    by (simp add: getStepsByGoalId_def filter_sort conj_commute)
  show ?thesis
    unfolding getGoalProgress_def Let_def by (simp only: total completed)
qed

lemma threeSteps_counts:
  "length (filter (\<lambda>s. step_goalId s = 10) (stepTable threeStepsDb)) = 3
   \<and> length (filter (\<lambda>s. step_goalId s = 10 \<and> step_isCompleted s) (stepTable threeStepsDb)) = 1"
  by code_simp

lemma fortySteps_counts:
  "length (filter (\<lambda>s. step_goalId s = 10) (stepTable fortyStepsDb)) = 40
   \<and> length (filter (\<lambda>s. step_goalId s = 10 \<and> step_isCompleted s) (stepTable fortyStepsDb)) = 23"
  by code_simp

lemma percentages:
  "mathRound (binary64 (binary64 (1 / 3) * 100)) = 33
   \<and> mathRound (binary64 (binary64 (23 / 40) * 100)) = 57
   \<and> binary64 (binary64 (23 / 40) * 100) = 8092405580431359 / 140737488355328
   \<and> mathRound (100 * 23 / 40) = 58"
  by code_simp

text \<open>
  Claim C9. \<open>getGoalProgress\<close> counts the steps of the goal and its completed steps, and
  the percentage is 0 without steps; with three steps, one completed, it returns
  \<open>{completed: 1, total: 3, percentage: 33}\<close>. The percentage is
  \<open>Math.round((completed / total) * 100)\<close> in binary64: with forty steps, twenty-three
  completed, the quotient rounds to a number below 0.575, the product to
  57.49999999999999, and the percentage is 57, where \<open>100 * 23 / 40 = 57.5\<close> rounds to 58.
  This is so in whatever sequence the query returns the steps.
\<close>

theorem progress_percentage:
  "getGoalProgress tie 10 threeStepsDb = \<lparr>pr_completed = 1, pr_total = 3, pr_percentage = 33\<rparr>
   \<and> getGoalProgress tie 10 fortyStepsDb = \<lparr>pr_completed = 23, pr_total = 40, pr_percentage = 57\<rparr>
   \<and> binary64 (binary64 (23 / 40) * 100) = 8092405580431359 / 140737488355328
   \<and> mathRound (100 * 23 / 40) = 58"
  using percentages by (simp add: getGoalProgress_counts threeSteps_counts fortySteps_counts)

end
